theory Spec2Isabelle
  imports Main
begin

section \<open>Strings\<close>

text \<open>
  A Python \<open>str\<close> is modelled as a \<open>string\<close>, one \<open>char\<close> per code point below 256.
  \<open>isspace\<close> is \<open>str.isspace\<close> on that range; \<open>strip\<close> is \<open>str.strip()\<close> without argument.
\<close>

definition isspace :: "char \<Rightarrow> bool" where
  "isspace c = ((of_char c :: nat) \<in> {9, 10, 11, 12, 13, 28, 29, 30, 31, 32, 133, 160})"

definition strip :: "string \<Rightarrow> string" where
  "strip s = rev (dropWhile isspace (rev (dropWhile isspace s)))"

text \<open>\<open>contains p s\<close> is Python's \<open>p in s\<close> on strings.\<close>

fun contains :: "string \<Rightarrow> string \<Rightarrow> bool" where
  "contains p [] = (p = [])"
| "contains p (c # cs) = (take (length p) (c # cs) = p \<or> contains p cs)"

declare contains.simps [simp del]

text \<open>\<open>split_ws cur s\<close> cuts \<open>s\<close> at runs of whitespace; \<open>cur\<close> is the word being read.\<close>

fun split_ws :: "string \<Rightarrow> string \<Rightarrow> string list" where
  "split_ws cur [] = (if cur = [] then [] else [cur])"
| "split_ws cur (c # cs) =
     (if isspace c then (if cur = [] then split_ws [] cs else cur # split_ws [] cs)
      else split_ws (cur @ [c]) cs)"


section \<open>The parsed document and the BeautifulSoup primitives the program calls\<close>

text \<open>
  A parsed document is a tree of tags (name, attribute dictionary, contents) and of the
  strings between them. The soup itself is the root tag. A string is a plain
  \<open>NavigableString\<close> or an object of one of its subclasses: the parser gives the text of a
  \<open>script\<close>, \<open>style\<close>, \<open>template\<close>, \<open>rt\<close> or \<open>rp\<close> element the class of that container, and
  comments, CDATA sections, declarations, doctypes and processing instructions theirs.
\<close>

datatype string_class =
  Comment | CData | ProcessingInstruction | Declaration | Doctype
  | Stylesheet | Script | TemplateString | RubyTextString | RubyParenthesisString

datatype node =
  Tag string "(string \<times> string) list" "node list"
  | NavigableString string
  | TypedString string_class string

text \<open>All nodes below a tag, in document order.\<close>

fun descendants :: "node \<Rightarrow> node list" where
  "descendants (Tag n a cs) = concat (map (\<lambda>c. c # descendants c) cs)"
| "descendants (NavigableString s) = []"
| "descendants (TypedString k s) = []"

text \<open>
  An attribute filter of \<open>find\<close>: \<open>Equals v\<close> for \<open>key='v'\<close>, \<open>AnyValue\<close> for \<open>key=True\<close>.
  The \<open>class\<close> attribute is multi-valued: a tag matches when one of its class names is \<open>v\<close>.
\<close>

datatype matcher = Equals string | AnyValue

fun attr_matches :: "(string \<times> string) list \<Rightarrow> string \<times> matcher \<Rightarrow> bool" where
  "attr_matches a (k, AnyValue) = (map_of a k \<noteq> None)"
| "attr_matches a (k, Equals v) =
     (case map_of a k of
        None \<Rightarrow> False
      | Some x \<Rightarrow> if k = ''class'' then v \<in> set (split_ws [] x) else x = v)"

fun tag_matches :: "string option \<Rightarrow> (string \<times> matcher) list \<Rightarrow> node \<Rightarrow> bool" where
  "tag_matches nm ats (Tag n a cs) =
     ((case nm of None \<Rightarrow> True | Some x \<Rightarrow> n = x) \<and> list_all (attr_matches a) ats)"
| "tag_matches nm ats (NavigableString s) = False"
| "tag_matches nm ats (TypedString k s) = False"

definition find_all :: "node \<Rightarrow> string option \<Rightarrow> (string \<times> matcher) list \<Rightarrow> node list" where
  "find_all t nm ats = filter (tag_matches nm ats) (descendants t)"

definition soup_find :: "node \<Rightarrow> string option \<Rightarrow> (string \<times> matcher) list \<Rightarrow> node option" where
  "soup_find t nm ats = (case find_all t nm ats of [] \<Rightarrow> None | x # xs \<Rightarrow> Some x)"

fun get_attr :: "node \<Rightarrow> string \<Rightarrow> string option" where
  "get_attr (Tag n a cs) k = map_of a k"
| "get_attr (NavigableString s) k = None"
| "get_attr (TypedString c s) k = None"

text \<open>
  \<open>tag[key]\<close>. The program subscripts only tags it found with \<open>key=True\<close>, where the key is
  present (lemmas \<open>find_all_has_attr\<close> and \<open>subscript_found\<close>); the empty string
  stands for the KeyError it cannot reach.
\<close>

definition subscript :: "node \<Rightarrow> string \<Rightarrow> string" where
  "subscript t k = (case get_attr t k of Some v \<Rightarrow> v | None \<Rightarrow> [])"

text \<open>
  The guard \<open>tag and tag.get(key)\<close> followed by the read \<open>tag[key]\<close>: the attribute's
  value when the tag was found and the value is a non-empty string.
\<close>

definition get_truthy :: "node option \<Rightarrow> string \<Rightarrow> string option" where
  "get_truthy e k =
     (case e of
        None \<Rightarrow> None
      | Some t \<Rightarrow> (case get_attr t k of
                    None \<Rightarrow> None
                  | Some v \<Rightarrow> if v = [] then None else Some v))"

text \<open>
  The strings \<open>get_text\<close> joins are those of the tag's \<open>interesting_string_types\<close>: for one
  of the five container elements its own class only, for every other tag the plain
  strings and the CDATA sections. The test is on the exact class of the string.
\<close>

definition string_container :: "string \<Rightarrow> string_class option" where
  "string_container n =
     (if n = ''rt'' then Some RubyTextString
      else if n = ''rp'' then Some RubyParenthesisString
      else if n = ''style'' then Some Stylesheet
      else if n = ''script'' then Some Script
      else if n = ''template'' then Some TemplateString
      else None)"

fun interesting_string :: "string \<Rightarrow> node \<Rightarrow> string list" where
  "interesting_string n (NavigableString s) = (if string_container n = None then [s] else [])"
| "interesting_string n (TypedString k s) =
     (case string_container n of
        None \<Rightarrow> if k = CData then [s] else []
      | Some c \<Rightarrow> if k = c then [s] else [])"
| "interesting_string n (Tag m a cs) = []"

text \<open>\<open>tag.get_text(strip=True)\<close>: every interesting string below the tag, stripped, the
  empty ones dropped, joined without separator. The program calls it on tags only.\<close>

fun get_text_strip :: "node \<Rightarrow> string" where
  "get_text_strip (Tag n a cs) =
     concat (filter (\<lambda>s. s \<noteq> [])
       (map strip (concat (map (interesting_string n) (descendants (Tag n a cs))))))"
| "get_text_strip (NavigableString s) = []"
| "get_text_strip (TypedString k s) = []"

section \<open>The environment\<close>

text \<open>
  What the program takes from outside itself: the network and parser behind \<open>get_soup\<close>,
  \<open>urllib.parse\<close>, and the order in which Python iterates a set of strings (the
  hash-table slot of each string, which depends on the process's hash seed).

  \<open>http_get\<close> is the outcome of the \<open>try\<close> body of \<open>get_soup\<close>: the parsed page; a
  \<open>RequestException\<close>, the one class of exception \<open>get_soup\<close> catches (a failed connection,
  a timeout, the error status that \<open>raise_for_status\<close> raises); or an exception of another
  class, which \<open>get_soup\<close> does not catch, as the \<open>ParserRejectedMarkup\<close> that
  \<open>BeautifulSoup(resp.text, 'html.parser')\<close> raises on markup such as
  \<open><p>a</p><![x]>\<close>. The same URL gets the same response throughout a run.

  \<open>urljoin\<close> and \<open>urlparse\<close> return their result or raise (a \<open>ValueError\<close>, on a netloc with
  an unbalanced bracket for one); of the parse result only the two fields the program
  reads are kept.
\<close>

datatype error = ValueError | ParserRejectedMarkup

datatype response = Page node | RequestException | Raised error

record ParseResult =
  netloc :: string
  path :: string

record world =
  http_get :: "string \<Rightarrow> response"
  urljoin :: "string \<Rightarrow> string \<Rightarrow> error + string"
  urlparse :: "string \<Rightarrow> error + ParseResult"
  set_slot :: "string \<Rightarrow> nat"

definition BASE_URL :: string where
  "BASE_URL = ''https://www.kompas.com/''"

text \<open>\<open>get_soup\<close> returns the soup, returns \<open>None\<close>, or lets the exception through.\<close>

definition get_soup :: "world \<Rightarrow> string \<Rightarrow> error + node option" where
  "get_soup w url =
     (case http_get w url of
        Page soup \<Rightarrow> Inr (Some soup)
      | RequestException \<Rightarrow> Inr None
      | Raised e \<Rightarrow> Inl e)"

section \<open>extract_article_metadata\<close>

record ArticleRecord =
  title :: string
  link :: string
  publication_time :: string
  author :: string
  image_url :: string
  summary :: string

text \<open>
  The four selectors the program uses: \<open>soup.find('meta', property=p)\<close>,
  \<open>soup.find('meta', attrs={'name': n})\<close>, \<open>soup.find(tag)\<close> and \<open>soup.find(class_=c)\<close>.
\<close>

definition meta_property :: "node \<Rightarrow> string \<Rightarrow> node option" where
  "meta_property soup p = soup_find soup (Some ''meta'') [(''property'', Equals p)]"

definition meta_name :: "node \<Rightarrow> string \<Rightarrow> node option" where
  "meta_name soup n = soup_find soup (Some ''meta'') [(''name'', Equals n)]"

definition find_tag :: "node \<Rightarrow> string \<Rightarrow> node option" where
  "find_tag soup n = soup_find soup (Some n) []"

definition find_class :: "node \<Rightarrow> string \<Rightarrow> node option" where
  "find_class soup c = soup_find soup None [(''class'', Equals c)]"

text \<open>In \<open>extract_title\<close>, \<open>t\<close> is the variable \<open>title\<close> before \<open>if not title\<close>: the empty
  string stands for both \<open>None\<close> and \<open>''\<close>, which that test does not tell apart.\<close>

definition extract_title :: "node \<Rightarrow> string" where
  "extract_title soup =
     (let og_title = meta_property soup ''og:title'';
          t = (case get_truthy og_title ''content'' of Some v \<Rightarrow> strip v | None \<Rightarrow> [])
      in if t = [] then
           (case find_tag soup ''title'' of
              Some title_tag \<Rightarrow> get_text_strip title_tag
            | None \<Rightarrow> ''Tidak ada judul'')
         else t)"

definition extract_summary :: "node \<Rightarrow> string" where
  "extract_summary soup =
     (let meta_desc = meta_name soup ''description'';
          og_desc = meta_property soup ''og:description''
      in case get_truthy meta_desc ''content'' of
           Some v \<Rightarrow> strip v
         | None \<Rightarrow>
             (case get_truthy og_desc ''content'' of
                Some v \<Rightarrow> strip v
              | None \<Rightarrow>
                  (case find_tag soup ''p'' of
                     Some p \<Rightarrow> get_text_strip p
                   | None \<Rightarrow> ''Tidak ada ringkasan'')))"

definition extract_author :: "node \<Rightarrow> string" where
  "extract_author soup =
     (let meta_author = meta_name soup ''author'';
          art_author = meta_property soup ''article:author''
      in case get_truthy meta_author ''content'' of
           Some v \<Rightarrow> strip v
         | None \<Rightarrow>
             (case get_truthy art_author ''content'' of
                Some v \<Rightarrow> strip v
              | None \<Rightarrow>
                  (let a_tag =
                         (case find_class soup ''read__author'' of
                            Some x \<Rightarrow> Some x
                          | None \<Rightarrow> find_class soup ''author'')
                   in case a_tag of
                        Some x \<Rightarrow> get_text_strip x
                      | None \<Rightarrow> ''Tidak diketahui'')))"

definition extract_publication_time :: "node \<Rightarrow> string" where
  "extract_publication_time soup =
     (let meta_time = meta_property soup ''article:published_time''
      in case get_truthy meta_time ''content'' of
           Some v \<Rightarrow> strip v
         | None \<Rightarrow>
             (let time_tag = find_tag soup ''time''
              in case get_truthy time_tag ''datetime'' of
                   Some v \<Rightarrow> strip v
                 | None \<Rightarrow>
                     (case time_tag of
                        Some x \<Rightarrow> get_text_strip x
                      | None \<Rightarrow> ''Tidak ada waktu'')))"

text \<open>The image is the one field whose chain can raise: \<open>urljoin(article_url, src)\<close>.\<close>

definition extract_image_url :: "world \<Rightarrow> string \<Rightarrow> node \<Rightarrow> error + string" where
  "extract_image_url w article_url soup =
     (let og_image = meta_property soup ''og:image''
      in case get_truthy og_image ''content'' of
           Some v \<Rightarrow> Inr (strip v)
         | None \<Rightarrow>
             (let img_tag = find_tag soup ''img''
              in case get_truthy img_tag ''src'' of
                   Some v \<Rightarrow> urljoin w article_url v
                 | None \<Rightarrow> Inr ''Tidak ada gambar''))"

text \<open>
  The result of \<open>extract_article_metadata\<close>: \<open>Inr None\<close> for \<open>return None\<close>, \<open>Inr (Some r)\<close>
  for the returned dictionary, \<open>Inl e\<close> when an exception leaves the function (from
  \<open>get_soup\<close> or from the \<open>urljoin\<close> of the image; nothing in the function catches it).
\<close>

definition extract_article_metadata :: "world \<Rightarrow> string \<Rightarrow> error + ArticleRecord option" where
  "extract_article_metadata w article_url =
     (case get_soup w article_url of
        Inl e \<Rightarrow> Inl e
      | Inr None \<Rightarrow> Inr None
      | Inr (Some soup) \<Rightarrow>
          (case extract_image_url w article_url soup of
             Inl e \<Rightarrow> Inl e
           | Inr img \<Rightarrow>
               Inr (Some \<lparr> title = extract_title soup,
                            link = article_url,
                            publication_time = extract_publication_time soup,
                            author = extract_author soup,
                            image_url = img,
                            summary = extract_summary soup \<rparr>)))"

section \<open>collect_article_links_from_home\<close>

text \<open>
  \<open>links\<close> is a Python set. The model keeps its elements in insertion order, without
  duplicates (\<open>set_add\<close>), and iterates them by ascending slot (\<open>set_iter\<close>): every order in
  which Python can iterate the set is the order of some slot assignment.
\<close>

definition set_add :: "string \<Rightarrow> string list \<Rightarrow> string list" where
  "set_add x xs = (if x \<in> set xs then xs else xs @ [x])"

definition set_iter :: "world \<Rightarrow> string list \<Rightarrow> string list" where
  "set_iter w xs = sort_key (set_slot w) xs"

text \<open>The keys of \<open>dict.fromkeys(xs)\<close>, in dictionary order: first occurrences, in order.\<close>

definition fromkeys :: "string list \<Rightarrow> string list" where
  "fromkeys xs = fold (\<lambda>x keys. if x \<in> set keys then keys else keys @ [x]) xs []"

text \<open>\<open>l.split('#')[0]\<close>\<close>

definition strip_fragment :: "string \<Rightarrow> string" where
  "strip_fragment l = takeWhile (\<lambda>c. c \<noteq> CHR ''#'') l"

definition section_markers :: "string list" where
  "section_markers =
     [''/read/'', ''/travel/'', ''/sains/'', ''/internasional/'', ''/tekno/'', ''/health/'',
      ''/edu/'']"

text \<open>The test \<open>'kompas.com' in urlparse(url).netloc\<close>, where it returns.\<close>

definition in_domain :: "world \<Rightarrow> string \<Rightarrow> bool" where
  "in_domain w url =
     (case urlparse w url of Inl e \<Rightarrow> False | Inr parsed \<Rightarrow> contains ''kompas.com'' (netloc parsed))"

text \<open>A \<open>for\<close> loop whose body can raise: the first exception ends it.\<close>

fun for_each :: "('a \<Rightarrow> 's \<Rightarrow> error + 's) \<Rightarrow> 'a list \<Rightarrow> 's \<Rightarrow> error + 's" where
  "for_each body [] s = Inr s"
| "for_each body (x # xs) s =
     (case body x s of Inl e \<Rightarrow> Inl e | Inr s' \<Rightarrow> for_each body xs s')"

text \<open>Body of the first loop, for one \<open>article\<close> element.\<close>

definition structural_step :: "world \<Rightarrow> node \<Rightarrow> string list \<Rightarrow> error + string list" where
  "structural_step w art links =
     (case soup_find art (Some ''a'') [(''href'', AnyValue)] of
        Some a \<Rightarrow>
          (case urljoin w BASE_URL (subscript a ''href'') of
             Inl e \<Rightarrow> Inl e
           | Inr href \<Rightarrow> Inr (set_add href links))
      | None \<Rightarrow> Inr links)"

text \<open>
  What the second loop makes of one \<open>href\<close>: the variables \<open>href\<close> and \<open>parsed\<close> after the
  \<open>urljoin\<close> and second \<open>urlparse\<close> that a link without netloc gets.
\<close>

definition resolve_href :: "world \<Rightarrow> string \<Rightarrow> error + string \<times> ParseResult" where
  "resolve_href w href =
     (case urlparse w href of
        Inl e \<Rightarrow> Inl e
      | Inr parsed \<Rightarrow>
          if netloc parsed = [] then
            (case urljoin w BASE_URL href of
               Inl e \<Rightarrow> Inl e
             | Inr href' \<Rightarrow>
                 (case urlparse w href' of
                    Inl e \<Rightarrow> Inl e
                  | Inr parsed' \<Rightarrow> Inr (href', parsed')))
          else Inr (href, parsed))"

text \<open>Body of the second loop, for one anchor that has an \<open>href\<close>.\<close>

definition heuristic_step :: "world \<Rightarrow> node \<Rightarrow> string list \<Rightarrow> error + string list" where
  "heuristic_step w a links =
     (let href = subscript a ''href''
      in if href = [] then Inr links
         else
           (case resolve_href w href of
              Inl e \<Rightarrow> Inl e
            | Inr (href', parsed) \<Rightarrow>
                Inr (if contains ''kompas.com'' (netloc parsed) then
                       (if list_ex (\<lambda>m. contains m (path parsed)) section_markers then
                          set_add href' links
                        else if length (get_text_strip a) > 30 then set_add href' links
                        else links)
                     else links)))"

text \<open>The set \<open>links\<close> after the first loop.\<close>

definition structural_links :: "world \<Rightarrow> node \<Rightarrow> error + string list" where
  "structural_links w soup =
     for_each (structural_step w) (find_all soup (Some ''article'') []) []"

text \<open>The set \<open>links\<close> after both loops.\<close>

definition candidate_links :: "world \<Rightarrow> node \<Rightarrow> error + string list" where
  "candidate_links w soup =
     (case structural_links w soup of
        Inl e \<Rightarrow> Inl e
      | Inr links \<Rightarrow>
          for_each (heuristic_step w) (find_all soup (Some ''a'') [(''href'', AnyValue)]) links)"

definition collect_article_links_from_home :: "world \<Rightarrow> error + string list" where
  "collect_article_links_from_home w =
     (case get_soup w BASE_URL of
        Inl e \<Rightarrow> Inl e
      | Inr None \<Rightarrow> Inr []
      | Inr (Some soup) \<Rightarrow>
          (case candidate_links w soup of
             Inl e \<Rightarrow> Inl e
           | Inr links \<Rightarrow>
               (let cleaned = map strip_fragment (set_iter w links);
                    unique_links = fromkeys cleaned
                in Inr unique_links)))"

section \<open>main\<close>

text \<open>
  What a run of \<open>main\<close> leaves, up to the export: the records collected, the counter, the
  links announced by \<open>Memproses:\<close>, which are the links \<open>extract_article_metadata\<close> was
  called on, and the exception that ended the run, if one did. \<open>main\<close> catches nothing
  before the export, so an exception from the collector, from \<open>urlparse(link)\<close> or from the
  extractor ends the run where it is raised.
\<close>

record run =
  collected_data :: "ArticleRecord list"
  count :: nat
  processed :: "string list"
  raised :: "error option"

definition MAX_ARTICLES :: nat where
  "MAX_ARTICLES = 50"

fun main_loop :: "world \<Rightarrow> string list \<Rightarrow> run \<Rightarrow> run" where
  "main_loop w [] st = st"
| "main_loop w (l # ls) st =
     (if count st \<ge> MAX_ARTICLES then st
      else
        (case urlparse w l of
           Inl e \<Rightarrow> st\<lparr>raised := Some e\<rparr>
         | Inr parsed \<Rightarrow>
             if \<not> contains ''kompas.com'' (netloc parsed) then main_loop w ls st
             else
               (let st1 = st\<lparr>processed := processed st @ [l]\<rparr>
                in case extract_article_metadata w l of
                     Inl e \<Rightarrow> st1\<lparr>raised := Some e\<rparr>
                   | Inr (Some meta) \<Rightarrow>
                       main_loop w ls
                         (st1\<lparr>collected_data := collected_data st1 @ [meta],
                              count := count st1 + 1\<rparr>)
                   | Inr None \<Rightarrow> main_loop w ls st1)))"

definition initial_run :: run where
  "initial_run = \<lparr>collected_data = [], count = 0, processed = [], raised = None\<rparr>"

text \<open>\<open>main\<close> up to the export.\<close>

definition main :: "world \<Rightarrow> run" where
  "main w =
     (case collect_article_links_from_home w of
        Inl e \<Rightarrow> initial_run\<lparr>raised := Some e\<rparr>
      | Inr article_links \<Rightarrow> main_loop w article_links initial_run)"

text \<open>The record \<open>main\<close> appends for a link it processes: the one the extractor returns.\<close>

definition record_of :: "world \<Rightarrow> string \<Rightarrow> ArticleRecord option" where
  "record_of w l =
     (case extract_article_metadata w l of Inr (Some meta) \<Rightarrow> Some meta | _ \<Rightarrow> None)"

section \<open>A concrete environment\<close>

text \<open>
  For the closed examples: \<open>urlsplit\<close>, \<open>urlparse\<close>, \<open>urlunparse\<close> and \<open>urljoin\<close> of
  CPython 3.11.10's \<open>urllib/parse.py\<close> on \<open>str\<close> arguments, with
  \<open>allow_fragments=True\<close>. \<open>urlsplit\<close> raises \<open>ValueError\<close> on a netloc with one bracket
  and not the other. On a netloc with both brackets it validates the bracketed host as
  an IP literal (\<open>_check_bracketed_host\<close>), and on a non-ASCII netloc it inspects the NFKC
  normal form (\<open>_checknetloc\<close>); the verdict of these two checks is the parameter
  \<open>valid\<close>, consulted on such netlocs only.
\<close>

record url_parts =
  p_scheme :: string
  p_netloc :: string
  p_path :: string
  p_params :: string
  p_query :: string
  p_fragment :: string

definition uses_relative :: "string list" where
  "uses_relative =
     ['''', ''ftp'', ''http'', ''gopher'', ''nntp'', ''imap'', ''wais'', ''file'', ''https'',
      ''shttp'', ''mms'', ''prospero'', ''rtsp'', ''rtsps'', ''rtspu'', ''sftp'', ''svn'',
      ''svn+ssh'', ''ws'', ''wss'']"

definition uses_netloc :: "string list" where
  "uses_netloc =
     ['''', ''ftp'', ''http'', ''gopher'', ''nntp'', ''telnet'', ''imap'', ''wais'', ''file'',
      ''mms'', ''https'', ''shttp'', ''snews'', ''prospero'', ''rtsp'', ''rtsps'', ''rtspu'',
      ''rsync'', ''svn'', ''svn+ssh'', ''sftp'', ''nfs'', ''git'', ''git+ssh'', ''ws'', ''wss'']"

definition uses_params :: "string list" where
  "uses_params =
     ['''', ''ftp'', ''hdl'', ''prospero'', ''http'', ''imap'', ''https'', ''shttp'', ''rtsp'',
      ''rtsps'', ''rtspu'', ''sip'', ''sips'', ''mms'', ''sftp'', ''tel'']"

definition scheme_chars :: string where
  "scheme_chars = ''abcdefghijklmnopqrstuvwxyzABCDEFGHIJKLMNOPQRSTUVWXYZ0123456789+-.''"

definition c0_control_or_space :: "char \<Rightarrow> bool" where
  "c0_control_or_space c = ((of_char c :: nat) \<le> 32)"

definition unsafe_url_byte :: "char \<Rightarrow> bool" where
  "unsafe_url_byte c = ((of_char c :: nat) \<in> {9, 13, 10})"

definition ascii_alpha :: "char \<Rightarrow> bool" where
  "ascii_alpha c = (c \<in> set (take 52 scheme_chars))"

definition lower_char :: "char \<Rightarrow> char" where
  "lower_char c =
     (if 65 \<le> (of_char c :: nat) \<and> (of_char c :: nat) \<le> 90 then char_of (of_char c + (32::nat))
      else c)"

text \<open>\<open>s.split(c, 1)\<close> when \<open>c\<close> is in \<open>s\<close>.\<close>

definition split_first :: "char \<Rightarrow> string \<Rightarrow> string \<times> string" where
  "split_first c s = (takeWhile (\<lambda>x. x \<noteq> c) s, drop 1 (dropWhile (\<lambda>x. x \<noteq> c) s))"

text \<open>\<open>s.split(c)\<close>\<close>

fun py_split :: "char \<Rightarrow> string \<Rightarrow> string list" where
  "py_split c [] = [[]]"
| "py_split c (x # xs) =
     (if x = c then [] # py_split c xs
      else (case py_split c xs of y # ys \<Rightarrow> (x # y) # ys | [] \<Rightarrow> [[x]]))"

text \<open>\<open>c.join(xs)\<close>\<close>

fun py_join :: "char \<Rightarrow> string list \<Rightarrow> string" where
  "py_join c [] = []"
| "py_join c [x] = x"
| "py_join c (x # y # ys) = x @ c # py_join c (y # ys)"

definition is_ascii :: "char \<Rightarrow> bool" where
  "is_ascii c = ((of_char c :: nat) < 128)"

definition netloc_delim :: "char \<Rightarrow> bool" where
  "netloc_delim c = (c \<in> set ''/?#'')"

definition py_urlsplit :: "(string \<Rightarrow> bool) \<Rightarrow> string \<Rightarrow> string \<Rightarrow> error + url_parts" where
  "py_urlsplit valid url0 scheme0 =
     (let url1 = filter (\<lambda>c. \<not> unsafe_url_byte c) (dropWhile c0_control_or_space url0);
          scheme1 = filter (\<lambda>c. \<not> unsafe_url_byte c)
                      (rev (dropWhile c0_control_or_space
                         (rev (dropWhile c0_control_or_space scheme0))));
          pre = takeWhile (\<lambda>c. c \<noteq> CHR '':'') url1;
          has_scheme = (CHR '':'' \<in> set url1 \<and> pre \<noteq> [] \<and> ascii_alpha (hd url1)
                          \<and> list_all (\<lambda>c. c \<in> set scheme_chars) pre);
          scheme2 = (if has_scheme then map lower_char pre else scheme1);
          url2 = (if has_scheme then drop (length pre + 1) url1 else url1);
          has_netloc = (take 2 url2 = ''//'');
          nl = (if has_netloc then takeWhile (\<lambda>c. \<not> netloc_delim c) (drop 2 url2) else []);
          url3 = (if has_netloc then dropWhile (\<lambda>c. \<not> netloc_delim c) (drop 2 url2) else url2);
          frag = (if CHR ''#'' \<in> set url3 then snd (split_first CHR ''#'' url3) else []);
          url4 = (if CHR ''#'' \<in> set url3 then fst (split_first CHR ''#'' url3) else url3);
          qry = (if CHR ''?'' \<in> set url4 then snd (split_first CHR ''?'' url4) else []);
          url5 = (if CHR ''?'' \<in> set url4 then fst (split_first CHR ''?'' url4) else url4)
      in if (CHR ''['' \<in> set nl) \<noteq> (CHR '']'' \<in> set nl) then Inl ValueError
         else if (CHR ''['' \<in> set nl \<or> \<not> list_all is_ascii nl) \<and> \<not> valid nl then
           Inl ValueError
         else
           Inr \<lparr> p_scheme = scheme2, p_netloc = nl, p_path = url5, p_params = [],
                   p_query = qry, p_fragment = frag \<rparr>)"

definition splitparams :: "string \<Rightarrow> string \<times> string" where
  "splitparams url =
     (if CHR ''/'' \<in> set url then
        (let k = length url - length (takeWhile (\<lambda>c. c \<noteq> CHR ''/'') (rev url)) - 1;
             rest = drop k url
         in if CHR '';'' \<in> set rest then
              (take k url @ fst (split_first CHR '';'' rest), snd (split_first CHR '';'' rest))
            else (url, []))
      else split_first CHR '';'' url)"

definition py_urlparse :: "(string \<Rightarrow> bool) \<Rightarrow> string \<Rightarrow> string \<Rightarrow> error + url_parts" where
  "py_urlparse valid url scheme0 =
     (case py_urlsplit valid url scheme0 of
        Inl e \<Rightarrow> Inl e
      | Inr r \<Rightarrow>
          Inr (if p_scheme r \<in> set uses_params \<and> CHR '';'' \<in> set (p_path r) then
                 r\<lparr>p_path := fst (splitparams (p_path r)),
                   p_params := snd (splitparams (p_path r))\<rparr>
               else r))"

definition py_urlunparse :: "url_parts \<Rightarrow> string" where
  "py_urlunparse r =
     (let url1 = (if p_params r \<noteq> [] then p_path r @ '';'' @ p_params r else p_path r);
          url2 = (if p_netloc r \<noteq> [] \<or> (p_scheme r \<noteq> [] \<and> p_scheme r \<in> set uses_netloc)
                     \<or> take 2 url1 = ''//''
                  then ''//'' @ p_netloc r
                         @ (if url1 \<noteq> [] \<and> take 1 url1 \<noteq> ''/'' then ''/'' @ url1 else url1)
                  else url1);
          url3 = (if p_scheme r \<noteq> [] then p_scheme r @ '':'' @ url2 else url2);
          url4 = (if p_query r \<noteq> [] then url3 @ ''?'' @ p_query r else url3)
      in if p_fragment r \<noteq> [] then url4 @ ''#'' @ p_fragment r else url4)"

text \<open>The loop of \<open>urljoin\<close> over the path segments.\<close>

fun resolve_segments :: "string list \<Rightarrow> string list \<Rightarrow> string list" where
  "resolve_segments [] resolved = resolved"
| "resolve_segments (seg # segs) resolved =
     (if seg = ''..'' then resolve_segments segs (butlast resolved)
      else if seg = ''.'' then resolve_segments segs resolved
      else resolve_segments segs (resolved @ [seg]))"

text \<open>\<open>urljoin\<close> once both arguments are parsed.\<close>

definition join_parts :: "string \<Rightarrow> url_parts \<Rightarrow> url_parts \<Rightarrow> string" where
  "join_parts url b u =
     (if p_scheme u \<noteq> p_scheme b \<or> p_scheme u \<notin> set uses_relative then url
      else if p_scheme u \<in> set uses_netloc \<and> p_netloc u \<noteq> [] then py_urlunparse u
      else
        (let nl = (if p_scheme u \<in> set uses_netloc then p_netloc b else p_netloc u)
         in if p_path u = [] \<and> p_params u = [] then
              py_urlunparse
                (u\<lparr>p_netloc := nl, p_path := p_path b, p_params := p_params b,
                   p_query := (if p_query u = [] then p_query b else p_query u)\<rparr>)
            else
              (let base_parts0 = py_split CHR ''/'' (p_path b);
                   base_parts = (if last base_parts0 \<noteq> [] then butlast base_parts0
                                 else base_parts0);
                   segments0 = base_parts @ py_split CHR ''/'' (p_path u);
                   segments =
                     (if take 1 (p_path u) = ''/'' then py_split CHR ''/'' (p_path u)
                      else if length segments0 < 2 then segments0
                      else hd segments0
                             # filter (\<lambda>s. s \<noteq> []) (butlast (tl segments0))
                             @ [last segments0]);
                   resolved0 = resolve_segments segments [];
                   resolved = (if last segments \<in> {''.'', ''..''} then resolved0 @ [[]]
                               else resolved0);
                   joined = py_join CHR ''/'' resolved
               in py_urlunparse
                    (u\<lparr>p_netloc := nl,
                       p_path := (if joined = [] then ''/'' else joined)\<rparr>))))"

definition py_urljoin :: "(string \<Rightarrow> bool) \<Rightarrow> string \<Rightarrow> string \<Rightarrow> error + string" where
  "py_urljoin valid base url =
     (if base = [] then Inr url
      else if url = [] then Inr base
      else
        (case py_urlparse valid base [] of
           Inl e \<Rightarrow> Inl e
         | Inr b \<Rightarrow>
             (case py_urlparse valid url (p_scheme b) of
                Inl e \<Rightarrow> Inl e
              | Inr u \<Rightarrow> Inr (join_parts url b u))))"

text \<open>The environment with this \<open>urllib.parse\<close>, over a given web and slot assignment.\<close>

definition py_world :: "(string \<Rightarrow> bool) \<Rightarrow> (string \<Rightarrow> response) \<Rightarrow> (string \<Rightarrow> nat) \<Rightarrow> world" where
  "py_world valid web slot =
     \<lparr> http_get = web,
        urljoin = py_urljoin valid,
        urlparse = (\<lambda>u. case py_urlparse valid u [] of
                           Inl e \<Rightarrow> Inl e
                         | Inr r \<Rightarrow> Inr \<lparr> netloc = p_netloc r, path = p_path r \<rparr>),
        set_slot = slot \<rparr>"

text \<open>The examples have no netloc with a bracket pair or a non-ASCII character: the
  verdict is never consulted on them.\<close>

definition any_valid :: "string \<Rightarrow> bool" where
  "any_valid n = True"

section \<open>Example pages\<close>

definition soup_of :: "node list \<Rightarrow> node" where
  "soup_of cs = Tag ''[document]'' [] cs"

definition meta_p :: "string \<Rightarrow> string \<Rightarrow> node" where
  "meta_p p c = Tag ''meta'' [(''property'', p), (''content'', c)] []"

definition meta_n :: "string \<Rightarrow> string \<Rightarrow> node" where
  "meta_n n c = Tag ''meta'' [(''name'', n), (''content'', c)] []"

definition anchor :: "string \<Rightarrow> string \<Rightarrow> node" where
  "anchor href s = Tag ''a'' [(''href'', href)] [NavigableString s]"

text \<open>A web of the listed pages; every other URL fails with a \<open>RequestException\<close>.\<close>

definition web_of :: "(string \<times> node) list \<Rightarrow> string \<Rightarrow> response" where
  "web_of pages url = (case map_of pages url of Some d \<Rightarrow> Page d | None \<Rightarrow> RequestException)"

definition article_url :: string where
  "article_url = ''https://www.kompas.com/read/1''"

text \<open>An article page with no source for any field.\<close>

definition blank_world :: world where
  "blank_world = py_world any_valid (web_of [(article_url, soup_of [])]) (\<lambda>u. 0)"

text \<open>An article page with every source of every field.\<close>

definition full_page :: node where
  "full_page = soup_of
     [Tag ''head'' []
        [meta_p ''og:title'' ''Title A'',
         Tag ''title'' [] [NavigableString ''Title B''],
         meta_n ''description'' '' Summary A '',
         meta_p ''og:description'' ''Summary B'',
         meta_n ''author'' ''Author A'',
         meta_p ''article:author'' ''Author B'',
         meta_p ''article:published_time'' ''2024-01-02T03:04:05+07:00'',
         meta_p ''og:image'' ''https://img.example/a.jpg''],
      Tag ''body'' []
        [Tag ''div'' [(''class'', ''author'')] [NavigableString ''Author D''],
         Tag ''div'' [(''class'', ''credit read__author'')] [NavigableString ''Author C''],
         Tag ''time'' [(''datetime'', ''2024-01-02'')] [NavigableString ''2 Jan''],
         Tag ''img'' [(''src'', ''/img/b.jpg'')] [],
         Tag ''p'' [] [NavigableString '' First '', Tag ''b'' [] [NavigableString ''paragraph '']]]]"

definition full_world :: world where
  "full_world = py_world any_valid (web_of [(article_url, full_page)]) (\<lambda>u. 0)"

text \<open>The same page without the first source of each field.\<close>

definition second_page :: node where
  "second_page = soup_of
     [Tag ''head'' []
        [Tag ''title'' [] [NavigableString ''Title B''],
         meta_p ''og:description'' ''Summary B'',
         meta_p ''article:author'' ''Author B''],
      Tag ''body'' []
        [Tag ''div'' [(''class'', ''author'')] [NavigableString ''Author D''],
         Tag ''time'' [(''datetime'', ''2024-01-02'')] [NavigableString ''2 Jan''],
         Tag ''img'' [(''src'', ''/img/b.jpg'')] [],
         Tag ''p'' [] [NavigableString '' First '', Tag ''b'' [] [NavigableString ''paragraph '']]]]"

definition second_world :: world where
  "second_world = py_world any_valid (web_of [(article_url, second_page)]) (\<lambda>u. 0)"

text \<open>A page with only the last source of summary, author and publication time; its
  paragraph holds a script and a comment.\<close>

definition third_page :: node where
  "third_page = soup_of
     [Tag ''body'' []
        [Tag ''div'' [(''class'', ''author'')] [NavigableString ''Author D''],
         Tag ''div'' [(''class'', ''credit read__author'')] [NavigableString ''Author C''],
         Tag ''time'' [] [NavigableString ''2 Jan''],
         Tag ''p'' []
           [NavigableString '' First '',
            Tag ''script'' [] [TypedString Script ''var x;''],
            TypedString Comment ''note'',
            Tag ''b'' [] [NavigableString ''paragraph '']]]]"

definition third_world :: world where
  "third_world = py_world any_valid (web_of [(article_url, third_page)]) (\<lambda>u. 0)"

text \<open>A page whose sources are there and blank: a \<open>time\<close> element with neither attribute
  nor text, an empty \<open>title\<close> element, a description of spaces.\<close>

definition hollow_page :: node where
  "hollow_page = soup_of
     [Tag ''head'' [] [Tag ''title'' [] [], meta_n ''description'' ''   ''],
      Tag ''body'' [] [Tag ''time'' [] []]]"

definition hollow_world :: world where
  "hollow_world = py_world any_valid (web_of [(article_url, hollow_page)]) (\<lambda>u. 0)"

text \<open>A page with an \<open>og:title\<close> tag without content and an \<open>img\<close> element without source.\<close>

definition bare_page :: node where
  "bare_page = soup_of
     [Tag ''head'' [] [Tag ''meta'' [(''property'', ''og:title'')] []],
      Tag ''body'' [] [Tag ''img'' [(''alt'', ''logo'')] []]]"

definition bare_world :: world where
  "bare_world = py_world any_valid (web_of [(article_url, bare_page)]) (\<lambda>u. 0)"

text \<open>A page whose only image has a source with an unbalanced bracket.\<close>

definition bad_image_page :: node where
  "bad_image_page = soup_of [Tag ''body'' [] [Tag ''img'' [(''src'', ''http://[bad/x.jpg'')] []]]"

definition bad_image_world :: world where
  "bad_image_world = py_world any_valid (web_of [(article_url, bad_image_page)]) (\<lambda>u. 0)"

text \<open>A web where every page is fetched and rejected by the parser.\<close>

definition rejected_world :: world where
  "rejected_world = py_world any_valid (\<lambda>u. Raised ParserRejectedMarkup) (\<lambda>u. 0)"

text \<open>A page whose first title and summary sources are blank and whose second are not.\<close>

definition blank_first_page :: node where
  "blank_first_page = soup_of
     [Tag ''head'' []
        [meta_p ''og:title'' ''   '',
         Tag ''title'' [] [NavigableString ''Title B''],
         meta_n ''description'' ''   '',
         meta_p ''og:description'' ''Summary B'']]"

definition blank_first_world :: world where
  "blank_first_world = py_world any_valid (web_of [(article_url, blank_first_page)]) (\<lambda>u. 0)"

text \<open>A web where every request fails.\<close>

definition offline_world :: world where
  "offline_world = py_world any_valid (web_of []) (\<lambda>u. 0)"

section \<open>Example home pages\<close>

text \<open>Two plain links, the second with a fragment.\<close>

definition home_two :: node where
  "home_two = soup_of [anchor ''/read/a'' ''A'', anchor ''/read/b#top'' ''B'']"

definition two_world :: "(string \<Rightarrow> nat) \<Rightarrow> world" where
  "two_world slot = py_world any_valid (web_of [(BASE_URL, home_two)]) slot"

text \<open>An article element whose link leaves the site.\<close>

definition home_external :: node where
  "home_external = soup_of [Tag ''article'' [] [anchor ''https://evil.example/x'' ''Elsewhere'']]"

definition external_world :: world where
  "external_world = py_world any_valid (web_of [(BASE_URL, home_external)]) (\<lambda>u. 0)"

text \<open>Two links to hosts that only contain the domain name.\<close>

definition home_lookalike :: node where
  "home_lookalike = soup_of
     [anchor ''https://notkompas.com/read/1'' ''One'',
      anchor ''https://kompas.com.example.net/read/2'' ''Two'']"

definition lookalike_world :: world where
  "lookalike_world = py_world any_valid (web_of [(BASE_URL, home_lookalike)]) (\<lambda>u. 0)"

text \<open>A home page of 51 headline links, one more than \<open>MAX_ARTICLES\<close>.\<close>

definition many_url :: "nat \<Rightarrow> string" where
  "many_url n =
     ''https://www.kompas.com/read/'' @ [char_of (48 + n div 10), char_of (48 + n mod 10)]"

definition many_links :: "string list" where
  "many_links = map many_url [0..<51]"

definition headline :: string where
  "headline = ''Headline text here that is over thirty characters''"

definition home_many :: node where
  "home_many = soup_of (map (\<lambda>u. anchor u headline) many_links)"

text \<open>Only the home page answers.\<close>

definition dead_world :: world where
  "dead_world = py_world any_valid (web_of [(BASE_URL, home_many)]) (\<lambda>u. 0)"

text \<open>Every article page answers (with an empty document) but the first.\<close>

definition flaky_world :: world where
  "flaky_world = py_world any_valid
     (\<lambda>u. if u = BASE_URL then Page home_many
          else if u = many_url 0 then RequestException
          else Page (soup_of []))
     (\<lambda>u. 0)"

text \<open>A string with no whitespace at either end.\<close>

definition trimmed :: "string \<Rightarrow> bool" where
  "trimmed s = (s = [] \<or> (\<not> isspace (hd s) \<and> \<not> isspace (last s)))"


text \<open>The home page answers; every article page is fetched and rejected by the parser.\<close>

definition crash_world :: world where
  "crash_world = py_world any_valid
     (\<lambda>u. if u = BASE_URL then Page home_many else Raised ParserRejectedMarkup)
     (\<lambda>u. 0)"

text \<open>The record a candidate link yields when \<open>main\<close> reaches it: that of the extractor
  when the link passes the domain filter and the extractor returns one.\<close>

definition candidate_record :: "world \<Rightarrow> string \<Rightarrow> ArticleRecord option" where
  "candidate_record w l = (if in_domain w l then record_of w l else None)"

section \<open>Basic facts\<close>

lemma get_soup_Page: "http_get w url = Page soup \<Longrightarrow> get_soup w url = Inr (Some soup)"
  by (simp add: get_soup_def)

lemma get_soup_failed: "http_get w url = RequestException \<Longrightarrow> get_soup w url = Inr None"
  by (simp add: get_soup_def)

lemma get_soup_raised: "http_get w url = Raised e \<Longrightarrow> get_soup w url = Inl e"
  by (simp add: get_soup_def)

lemma extract_Page:
  "http_get w url = Page soup \<Longrightarrow>
   extract_article_metadata w url =
     (case extract_image_url w url soup of
        Inl e \<Rightarrow> Inl e
      | Inr img \<Rightarrow>
          Inr (Some \<lparr> title = extract_title soup, link = url,
                       publication_time = extract_publication_time soup,
                       author = extract_author soup,
                       image_url = img,
                       summary = extract_summary soup \<rparr>))"
  by (simp add: extract_article_metadata_def get_soup_def)

lemma extract_failed:
  "http_get w url = RequestException \<Longrightarrow> extract_article_metadata w url = Inr None"
  by (simp add: extract_article_metadata_def get_soup_def)

lemma extract_raised:
  "http_get w url = Raised e \<Longrightarrow> extract_article_metadata w url = Inl e"
  by (simp add: extract_article_metadata_def get_soup_def)

lemma image_chain:
  "extract_image_url w url soup =
     (case get_truthy (meta_property soup ''og:image'') ''content'' of
        Some v \<Rightarrow> Inr (strip v)
      | None \<Rightarrow>
          (case get_truthy (find_tag soup ''img'') ''src'' of
             Some v \<Rightarrow> urljoin w url v
           | None \<Rightarrow> Inr ''Tidak ada gambar''))"
  by (simp add: extract_image_url_def Let_def split: option.splits)

lemma py_world_sel [simp]:
  "http_get (py_world valid web slot) = web"
  "urljoin (py_world valid web slot) = py_urljoin valid"
  "urlparse (py_world valid web slot) u
     = (case py_urlparse valid u [] of
          Inl e \<Rightarrow> Inl e
        | Inr r \<Rightarrow> Inr \<lparr> netloc = p_netloc r, path = p_path r \<rparr>)"
  "set_slot (py_world valid web slot) = slot"
  by (simp_all add: py_world_def)

lemma web_of_hit [simp]: "web_of ((u, d) # ps) u = Page d"
  by (simp add: web_of_def)

lemma web_of_empty [simp]: "web_of [] u = RequestException"
  by (simp add: web_of_def)

text \<open>A tag found with \<open>key=True\<close> has the key: \<open>tag[key]\<close> cannot raise.\<close>

lemma find_all_has_attr:
  "a \<in> set (find_all t nm ats) \<Longrightarrow> (k, AnyValue) \<in> set ats \<Longrightarrow> get_attr a k \<noteq> None"
proof -
  assume "a \<in> set (find_all t nm ats)" and k: "(k, AnyValue) \<in> set ats"
  then have m: "tag_matches nm ats a" by (simp add: find_all_def)
  show ?thesis
  proof (cases a)
    case (Tag n at cs)
    with m have "list_all (attr_matches at) ats" by simp
    with k have "attr_matches at (k, AnyValue)" by (auto simp: list_all_iff)
    with Tag show ?thesis by simp
  next
    case (NavigableString s)
    with m show ?thesis by simp
  next
    case (TypedString c s)
    with m show ?thesis by simp
  qed
qed

lemma subscript_found:
  "soup_find t nm ats = Some a \<Longrightarrow> (k, AnyValue) \<in> set ats \<Longrightarrow>
   get_attr a k = Some (subscript a k)"
proof -
  assume "soup_find t nm ats = Some a" and k: "(k, AnyValue) \<in> set ats"
  then have "a \<in> set (find_all t nm ats)"
    by (auto simp: soup_find_def split: list.splits)
  from find_all_has_attr [OF this k] show ?thesis
    by (auto simp: subscript_def)
qed

lemma get_truthy_None [simp]: "get_truthy None k = None"
  by (simp add: get_truthy_def)

lemma soup_find_empty [simp]: "soup_find (soup_of []) nm ats = None"
  by (simp add: soup_find_def find_all_def soup_of_def)

section \<open>Trimmed strings\<close>

lemma last_dropWhile: "dropWhile P xs \<noteq> [] \<Longrightarrow> last (dropWhile P xs) = last xs"
  by (induction xs) (auto split: if_splits)

lemma trimmed_strip: "trimmed (strip s)"
proof -
  let ?t = "dropWhile isspace s"
  let ?u = "dropWhile isspace (rev ?t)"
  show ?thesis
  proof (cases "?u = []")
    case True
    then show ?thesis by (simp add: trimmed_def strip_def)
  next
    case False
    then have u: "\<not> isspace (hd ?u)" by (rule hd_dropWhile)
    have t: "?t \<noteq> []"
    proof
      assume a: "?t = []"
      have "?u = []" unfolding a by simp
      with False show False ..
    qed
    then have "\<not> isspace (hd ?t)" by (rule hd_dropWhile)
    moreover from False have "last ?u = last (rev ?t)" by (rule last_dropWhile)
    ultimately have "\<not> isspace (last ?u)" using t by (simp add: last_rev)
    with u False show ?thesis
      by (simp add: trimmed_def strip_def hd_rev last_rev)
  qed
qed

lemma strip_trimmed_id: "trimmed s \<Longrightarrow> strip s = s"
proof (cases s)
  case Nil
  then show ?thesis by (simp add: strip_def)
next
  case (Cons x xs)
  assume "trimmed s"
  with Cons have h: "\<not> isspace x" and l: "\<not> isspace (last s)"
    by (auto simp: trimmed_def)
  from h Cons have a: "dropWhile isspace s = s" by simp
  from Cons have "rev s \<noteq> []" by simp
  moreover from l have "\<not> isspace (hd (rev s))" by (simp add: hd_rev)
  ultimately have "dropWhile isspace (rev s) = rev s"
    by (cases "rev s") auto
  with a show ?thesis by (simp add: strip_def)
qed

lemma strip_idem: "strip (strip s) = strip s"
  by (rule strip_trimmed_id) (rule trimmed_strip)

lemma trimmed_concat:
  "(\<And>x. x \<in> set xs \<Longrightarrow> x \<noteq> [] \<and> trimmed x) \<Longrightarrow> trimmed (concat xs)"
proof (induction xs)
  case Nil
  then show ?case by (simp add: trimmed_def)
next
  case (Cons x xs)
  then have x: "x \<noteq> []" "trimmed x" and ih: "trimmed (concat xs)" by auto
  show ?case
  proof (cases "concat xs = []")
    case True
    with x show ?thesis by (simp del: concat_eq_Nil_conv)
  next
    case False
    with x ih show ?thesis by (simp add: trimmed_def del: concat_eq_Nil_conv)
  qed
qed

lemma strip_Nil [simp]: "strip [] = []"
  by (simp add: strip_def)

lemma strip_get_text_strip: "strip (get_text_strip t) = get_text_strip t"
proof (cases t)
  case (Tag n a cs)
  show ?thesis
    unfolding Tag get_text_strip.simps
    by (rule strip_trimmed_id, rule trimmed_concat) (auto simp: trimmed_strip)
qed simp_all

lemma strip_sentinels:
  "strip ''Tidak ada judul'' = ''Tidak ada judul''"
  "strip ''Tidak ada ringkasan'' = ''Tidak ada ringkasan''"
  "strip ''Tidak diketahui'' = ''Tidak diketahui''"
  "strip ''Tidak ada waktu'' = ''Tidak ada waktu''"
  "strip ''Tidak ada gambar'' = ''Tidak ada gambar''"
  by code_simp+

lemma title_trimmed: "strip (extract_title soup) = extract_title soup"
  by (simp add: extract_title_def Let_def strip_idem strip_get_text_strip strip_sentinels
      split: option.splits)

lemma summary_trimmed: "strip (extract_summary soup) = extract_summary soup"
  by (simp add: extract_summary_def Let_def strip_idem strip_get_text_strip strip_sentinels
      split: option.splits)

lemma author_trimmed: "strip (extract_author soup) = extract_author soup"
  by (simp add: extract_author_def Let_def strip_idem strip_get_text_strip strip_sentinels
      split: option.splits)

lemma publication_time_trimmed:
  "strip (extract_publication_time soup) = extract_publication_time soup"
  by (simp add: extract_publication_time_def Let_def strip_idem strip_get_text_strip
      strip_sentinels split: option.splits)

lemma image_url_trimmed:
  "extract_image_url w url soup = Inr img \<Longrightarrow>
   strip img = img \<or>
   (\<exists>c. get_truthy (meta_property soup ''og:image'') ''content'' = None
        \<and> get_truthy (find_tag soup ''img'') ''src'' = Some c
        \<and> urljoin w url c = Inr img)"
  by (auto simp: image_chain strip_idem strip_sentinels split: option.splits)

lemma title_empty:
  "extract_title soup = [] \<Longrightarrow>
   \<exists>t. find_tag soup ''title'' = Some t \<and> get_text_strip t = []"
  by (auto simp: extract_title_def Let_def split: option.splits if_splits)

lemma summary_empty:
  "extract_summary soup = [] \<Longrightarrow>
   (\<exists>c. get_truthy (meta_name soup ''description'') ''content'' = Some c \<and> strip c = []) \<or>
   (\<exists>c. get_truthy (meta_property soup ''og:description'') ''content'' = Some c \<and> strip c = []) \<or>
   (\<exists>p. find_tag soup ''p'' = Some p \<and> get_text_strip p = [])"
  by (auto simp: extract_summary_def Let_def split: option.splits)

lemma author_empty:
  "extract_author soup = [] \<Longrightarrow>
   (\<exists>c. get_truthy (meta_name soup ''author'') ''content'' = Some c \<and> strip c = []) \<or>
   (\<exists>c. get_truthy (meta_property soup ''article:author'') ''content'' = Some c \<and> strip c = []) \<or>
   (\<exists>a. (find_class soup ''read__author'' = Some a \<or> find_class soup ''author'' = Some a)
        \<and> get_text_strip a = [])"
  by (auto simp: extract_author_def Let_def split: option.splits)

lemma publication_time_empty:
  "extract_publication_time soup = [] \<Longrightarrow>
   (\<exists>c. get_truthy (meta_property soup ''article:published_time'') ''content'' = Some c
        \<and> strip c = []) \<or>
   (\<exists>c. get_truthy (find_tag soup ''time'') ''datetime'' = Some c \<and> strip c = []) \<or>
   (\<exists>t. find_tag soup ''time'' = Some t \<and> get_text_strip t = [])"
  by (auto simp: extract_publication_time_def Let_def split: option.splits)

lemma image_url_empty:
  "extract_image_url w url soup = Inr [] \<Longrightarrow>
   (\<exists>c. get_truthy (meta_property soup ''og:image'') ''content'' = Some c \<and> strip c = []) \<or>
   (\<exists>c. get_truthy (find_tag soup ''img'') ''src'' = Some c \<and> urljoin w url c = Inr [])"
  by (auto simp: image_chain split: option.splits)

lemma extract_record_fields:
  "http_get w url = Page soup \<Longrightarrow> extract_article_metadata w url = Inr (Some r) \<Longrightarrow>
   title r = extract_title soup \<and> link r = url \<and>
   publication_time r = extract_publication_time soup \<and> author r = extract_author soup \<and>
   extract_image_url w url soup = Inr (image_url r) \<and> summary r = extract_summary soup"
  by (auto simp: extract_Page split: sum.splits)

section \<open>The three outcomes of the extractor\<close>

text \<open>
  C6, as the program has it. \<open>extract_article_metadata\<close> returns \<open>None\<close> if and only if the
  request for the page failed with a \<open>RequestException\<close>. An exception of another class
  from the fetch or the parser leaves the function. For a page that was fetched and
  parsed, the function raises exactly when the image chain reaches \<open>urljoin\<close> and \<open>urljoin\<close>
  raises, with that exception, and returns a record in every other case. A record it
  returns has the URL it was given as its \<open>link\<close>.
\<close>

theorem extract_outcomes:
  "(extract_article_metadata w url = Inr None) = (http_get w url = RequestException) \<and>
   (\<forall>e. http_get w url = Raised e \<longrightarrow> extract_article_metadata w url = Inl e) \<and>
   (\<forall>soup. http_get w url = Page soup \<longrightarrow>
      (\<forall>e. (extract_article_metadata w url = Inl e) =
            (get_truthy (meta_property soup ''og:image'') ''content'' = None \<and>
             (\<exists>c. get_truthy (find_tag soup ''img'') ''src'' = Some c
                  \<and> urljoin w url c = Inl e))) \<and>
      ((\<exists>r. extract_article_metadata w url = Inr (Some r)) =
       (\<not> (\<exists>c e. get_truthy (meta_property soup ''og:image'') ''content'' = None \<and>
               get_truthy (find_tag soup ''img'') ''src'' = Some c
               \<and> urljoin w url c = Inl e)))) \<and>
   (\<forall>r. extract_article_metadata w url = Inr (Some r) \<longrightarrow> link r = url)"
proof (cases "http_get w url")
  case (Page soup)
  show ?thesis
    by (cases "urljoin w url (the (get_truthy (find_tag soup ''img'') ''src''))")
      (auto simp: extract_Page [OF Page] Page image_chain split: sum.splits option.splits)
next
  case RequestException
  then show ?thesis by (simp add: extract_failed)
next
  case (Raised e)
  then show ?thesis by (simp add: extract_raised)
qed

theorem extract_outcomes_witness:
  "(\<exists>r. extract_article_metadata full_world article_url = Inr (Some r) \<and> link r = article_url) \<and>
   extract_article_metadata offline_world article_url = Inr None \<and>
   extract_article_metadata second_world article_url \<noteq> Inl ValueError"
proof -
  have hF: "http_get full_world article_url = Page full_page"
    by (simp add: full_world_def)
  have f: "get_truthy (meta_property full_page ''og:image'') ''content''
       = Some ''https://img.example/a.jpg''"
    by code_simp
  from extract_outcomes [of full_world article_url] hF f
  have a: "\<exists>r. extract_article_metadata full_world article_url = Inr (Some r)"
    by simp
  with extract_outcomes [of full_world article_url]
  have a': "\<exists>r. extract_article_metadata full_world article_url = Inr (Some r)
      \<and> link r = article_url"
    by blast
  have "http_get offline_world article_url = RequestException"
    by (simp add: offline_world_def)
  with extract_outcomes [of offline_world article_url]
  have b: "extract_article_metadata offline_world article_url = Inr None" by simp
  have hS: "http_get second_world article_url = Page second_page"
    by (simp add: second_world_def)
  have g: "get_truthy (find_tag second_page ''img'') ''src'' = Some ''/img/b.jpg''"
    by code_simp
  have j: "py_urljoin any_valid article_url ''/img/b.jpg''
      = Inr ''https://www.kompas.com/img/b.jpg''"
    by code_simp
  have "urljoin second_world article_url ''/img/b.jpg'' \<noteq> Inl ValueError"
    by (simp add: second_world_def j)
  with extract_outcomes [of second_world article_url] hS g
  have c: "extract_article_metadata second_world article_url \<noteq> Inl ValueError"
    by simp
  from a' b c show ?thesis by simp
qed

lemma bad_image_raises:
  "extract_article_metadata bad_image_world article_url = Inl ValueError"
proof -
  have h: "http_get bad_image_world article_url = Page bad_image_page"
    by (simp add: bad_image_world_def)
  have f: "get_truthy (meta_property bad_image_page ''og:image'') ''content'' = None"
    "get_truthy (find_tag bad_image_page ''img'') ''src'' = Some ''http://[bad/x.jpg''"
    by code_simp+
  have j: "py_urljoin any_valid article_url ''http://[bad/x.jpg'' = Inl ValueError"
    by code_simp
  show ?thesis
    by (simp add: extract_Page [OF h] image_chain f) (simp add: bad_image_world_def j)
qed

text \<open>
  A page that is fetched and parsed, whose only image has the source
  \<open>http://[bad/x.jpg\<close>: \<open>urljoin\<close> raises \<open>ValueError\<close> and so does the extractor. A page
  that is fetched and rejected by the parser: the extractor raises \<open>ParserRejectedMarkup\<close>.
  In neither case does it return \<open>None\<close> or a record.
\<close>

theorem extract_raises_counterexample:
  "http_get bad_image_world article_url = Page bad_image_page \<and>
   extract_article_metadata bad_image_world article_url = Inl ValueError \<and>
   http_get rejected_world article_url = Raised ParserRejectedMarkup \<and>
   extract_article_metadata rejected_world article_url = Inl ParserRejectedMarkup"
proof -
  have "http_get rejected_world article_url = Raised ParserRejectedMarkup"
    by (simp add: rejected_world_def)
  then show ?thesis
    by (simp add: bad_image_raises extract_raised) (simp add: bad_image_world_def)
qed

section \<open>The collector on an unavailable home page\<close>

text \<open>
  C8, as the program has it. When the request for the home page fails with a
  \<open>RequestException\<close>, \<open>collect_article_links_from_home\<close> returns the empty list. When the
  fetch or the parser raises an exception of another class, the collector raises it to
  its caller.
\<close>

theorem collect_when_root_unavailable:
  "(http_get w BASE_URL = RequestException \<longrightarrow> collect_article_links_from_home w = Inr []) \<and>
   (\<forall>e. http_get w BASE_URL = Raised e \<longrightarrow> collect_article_links_from_home w = Inl e)"
  by (simp add: collect_article_links_from_home_def get_soup_def)

theorem collect_when_root_unavailable_witness:
  "http_get offline_world BASE_URL = RequestException \<and>
   collect_article_links_from_home offline_world = Inr []"
proof -
  have h: "http_get offline_world BASE_URL = RequestException"
    by (simp add: offline_world_def)
  with collect_when_root_unavailable [of offline_world] show ?thesis by simp
qed

text \<open>A home page that is fetched and rejected by the parser: the collector raises.\<close>

theorem collect_raises_counterexample:
  "http_get rejected_world BASE_URL = Raised ParserRejectedMarkup \<and>
   collect_article_links_from_home rejected_world = Inl ParserRejectedMarkup"
  by (simp add: rejected_world_def collect_article_links_from_home_def get_soup_def)

section \<open>Sentinels\<close>

text \<open>
  C2, as the program has it. For a page that was fetched and parsed, a record that is
  returned holds the program's own placeholder in each field whose chain finds no
  source: \<open>Tidak ada judul\<close> for the title when \<open>og:title\<close> gives no non-blank content and
  there is no \<open>title\<close> element, \<open>Tidak ada ringkasan\<close> for the summary, \<open>Tidak diketahui\<close>
  for the author, \<open>Tidak ada waktu\<close> for the publication time and \<open>Tidak ada gambar\<close> for
  the image when none of their sources gives a value (a tag that is absent, or an
  attribute that is absent or empty). A record is returned unless the \<open>urljoin\<close> of the
  image source raises; then the extractor raises and no record is returned, whatever the
  other fields have.
\<close>

theorem sentinel_when_no_source:
  assumes "http_get w url = Page soup"
  shows
    "(\<forall>r. extract_article_metadata w url = Inr (Some r) \<longrightarrow>
       ((\<forall>c. get_truthy (meta_property soup ''og:title'') ''content'' = Some c \<longrightarrow> strip c = [])
          \<and> find_tag soup ''title'' = None
          \<longrightarrow> title r = ''Tidak ada judul'') \<and>
       (get_truthy (meta_name soup ''description'') ''content'' = None
          \<and> get_truthy (meta_property soup ''og:description'') ''content'' = None
          \<and> find_tag soup ''p'' = None
          \<longrightarrow> summary r = ''Tidak ada ringkasan'') \<and>
       (get_truthy (meta_name soup ''author'') ''content'' = None
          \<and> get_truthy (meta_property soup ''article:author'') ''content'' = None
          \<and> find_class soup ''read__author'' = None \<and> find_class soup ''author'' = None
          \<longrightarrow> author r = ''Tidak diketahui'') \<and>
       (get_truthy (meta_property soup ''article:published_time'') ''content'' = None
          \<and> find_tag soup ''time'' = None
          \<longrightarrow> publication_time r = ''Tidak ada waktu'') \<and>
       (get_truthy (meta_property soup ''og:image'') ''content'' = None
          \<and> get_truthy (find_tag soup ''img'') ''src'' = None
          \<longrightarrow> image_url r = ''Tidak ada gambar'')) \<and>
     ((\<exists>r. extract_article_metadata w url = Inr (Some r)) \<or>
      (\<exists>c e. get_truthy (meta_property soup ''og:image'') ''content'' = None
          \<and> get_truthy (find_tag soup ''img'') ''src'' = Some c
          \<and> urljoin w url c = Inl e
          \<and> extract_article_metadata w url = Inl e))"
proof
  show "\<forall>r. extract_article_metadata w url = Inr (Some r) \<longrightarrow>
       ((\<forall>c. get_truthy (meta_property soup ''og:title'') ''content'' = Some c \<longrightarrow> strip c = [])
          \<and> find_tag soup ''title'' = None
          \<longrightarrow> title r = ''Tidak ada judul'') \<and>
       (get_truthy (meta_name soup ''description'') ''content'' = None
          \<and> get_truthy (meta_property soup ''og:description'') ''content'' = None
          \<and> find_tag soup ''p'' = None
          \<longrightarrow> summary r = ''Tidak ada ringkasan'') \<and>
       (get_truthy (meta_name soup ''author'') ''content'' = None
          \<and> get_truthy (meta_property soup ''article:author'') ''content'' = None
          \<and> find_class soup ''read__author'' = None \<and> find_class soup ''author'' = None
          \<longrightarrow> author r = ''Tidak diketahui'') \<and>
       (get_truthy (meta_property soup ''article:published_time'') ''content'' = None
          \<and> find_tag soup ''time'' = None
          \<longrightarrow> publication_time r = ''Tidak ada waktu'') \<and>
       (get_truthy (meta_property soup ''og:image'') ''content'' = None
          \<and> get_truthy (find_tag soup ''img'') ''src'' = None
          \<longrightarrow> image_url r = ''Tidak ada gambar'')"
  proof (intro allI impI)
    fix r assume "extract_article_metadata w url = Inr (Some r)"
    from extract_record_fields [OF assms this]
    have f: "title r = extract_title soup" "summary r = extract_summary soup"
      "author r = extract_author soup" "publication_time r = extract_publication_time soup"
      "extract_image_url w url soup = Inr (image_url r)"
      by simp_all
    have t: "(\<forall>c. get_truthy (meta_property soup ''og:title'') ''content'' = Some c
                \<longrightarrow> strip c = [])
          \<and> find_tag soup ''title'' = None
          \<longrightarrow> extract_title soup = ''Tidak ada judul''"
      by (auto simp: extract_title_def Let_def split: option.splits)
    have s: "get_truthy (meta_name soup ''description'') ''content'' = None
          \<and> get_truthy (meta_property soup ''og:description'') ''content'' = None
          \<and> find_tag soup ''p'' = None
          \<longrightarrow> extract_summary soup = ''Tidak ada ringkasan''"
      by (simp add: extract_summary_def)
    have a: "get_truthy (meta_name soup ''author'') ''content'' = None
          \<and> get_truthy (meta_property soup ''article:author'') ''content'' = None
          \<and> find_class soup ''read__author'' = None \<and> find_class soup ''author'' = None
          \<longrightarrow> extract_author soup = ''Tidak diketahui''"
      by (simp add: extract_author_def)
    have p: "get_truthy (meta_property soup ''article:published_time'') ''content'' = None
          \<and> find_tag soup ''time'' = None
          \<longrightarrow> extract_publication_time soup = ''Tidak ada waktu''"
      by (simp add: extract_publication_time_def)
    have i: "get_truthy (meta_property soup ''og:image'') ''content'' = None
          \<and> get_truthy (find_tag soup ''img'') ''src'' = None
          \<longrightarrow> image_url r = ''Tidak ada gambar''"
      using f(5) by (auto simp: image_chain)
    from t s a p i show "((\<forall>c. get_truthy (meta_property soup ''og:title'') ''content'' = Some c \<longrightarrow> strip c = [])
          \<and> find_tag soup ''title'' = None
          \<longrightarrow> title r = ''Tidak ada judul'') \<and>
       (get_truthy (meta_name soup ''description'') ''content'' = None
          \<and> get_truthy (meta_property soup ''og:description'') ''content'' = None
          \<and> find_tag soup ''p'' = None
          \<longrightarrow> summary r = ''Tidak ada ringkasan'') \<and>
       (get_truthy (meta_name soup ''author'') ''content'' = None
          \<and> get_truthy (meta_property soup ''article:author'') ''content'' = None
          \<and> find_class soup ''read__author'' = None \<and> find_class soup ''author'' = None
          \<longrightarrow> author r = ''Tidak diketahui'') \<and>
       (get_truthy (meta_property soup ''article:published_time'') ''content'' = None
          \<and> find_tag soup ''time'' = None
          \<longrightarrow> publication_time r = ''Tidak ada waktu'') \<and>
       (get_truthy (meta_property soup ''og:image'') ''content'' = None
          \<and> get_truthy (find_tag soup ''img'') ''src'' = None
          \<longrightarrow> image_url r = ''Tidak ada gambar'')"
      by (simp only: f(1-4))
  qed
  show "(\<exists>r. extract_article_metadata w url = Inr (Some r)) \<or>
      (\<exists>c e. get_truthy (meta_property soup ''og:image'') ''content'' = None
          \<and> get_truthy (find_tag soup ''img'') ''src'' = Some c
          \<and> urljoin w url c = Inl e
          \<and> extract_article_metadata w url = Inl e)"
    by (cases "urljoin w url (the (get_truthy (find_tag soup ''img'') ''src''))")
      (auto simp: extract_Page [OF assms] image_chain split: sum.splits option.splits)
qed

lemma bare_facts:
  "get_truthy (meta_property bare_page ''og:title'') ''content'' = None"
  "find_tag bare_page ''title'' = None"
  "get_truthy (meta_name bare_page ''description'') ''content'' = None"
  "get_truthy (meta_property bare_page ''og:description'') ''content'' = None"
  "find_tag bare_page ''p'' = None"
  "get_truthy (meta_name bare_page ''author'') ''content'' = None"
  "get_truthy (meta_property bare_page ''article:author'') ''content'' = None"
  "find_class bare_page ''read__author'' = None"
  "find_class bare_page ''author'' = None"
  "get_truthy (meta_property bare_page ''article:published_time'') ''content'' = None"
  "find_tag bare_page ''time'' = None"
  "get_truthy (meta_property bare_page ''og:image'') ''content'' = None"
  "get_truthy (find_tag bare_page ''img'') ''src'' = None"
  by code_simp+

text \<open>A page with an \<open>og:title\<close> tag without content and an \<open>img\<close> element without source,
  and nothing else: every field is the placeholder.\<close>

theorem sentinel_when_no_source_witness:
  "meta_property bare_page ''og:title'' = Some (Tag ''meta'' [(''property'', ''og:title'')] []) \<and>
   find_tag bare_page ''img'' = Some (Tag ''img'' [(''alt'', ''logo'')] []) \<and>
   extract_article_metadata bare_world article_url =
     Inr (Some \<lparr> title = ''Tidak ada judul'', link = article_url,
                  publication_time = ''Tidak ada waktu'', author = ''Tidak diketahui'',
                  image_url = ''Tidak ada gambar'', summary = ''Tidak ada ringkasan'' \<rparr>)"
proof -
  have h: "http_get bare_world article_url = Page bare_page"
    by (simp add: bare_world_def)
  have e: "meta_property bare_page ''og:title''
      = Some (Tag ''meta'' [(''property'', ''og:title'')] [])"
    "find_tag bare_page ''img'' = Some (Tag ''img'' [(''alt'', ''logo'')] [])"
    by code_simp+
  from sentinel_when_no_source [OF h] bare_facts
  obtain r where r: "extract_article_metadata bare_world article_url = Inr (Some r)"
    by auto
  with sentinel_when_no_source [OF h] bare_facts
  have f: "title r = ''Tidak ada judul''" "summary r = ''Tidak ada ringkasan''"
      "author r = ''Tidak diketahui''" "publication_time r = ''Tidak ada waktu''"
      "image_url r = ''Tidak ada gambar''"
    by auto
  from extract_record_fields [OF h r] have "link r = article_url" by simp
  with f have "r = \<lparr> title = ''Tidak ada judul'', link = article_url,
            publication_time = ''Tidak ada waktu'', author = ''Tidak diketahui'',
            image_url = ''Tidak ada gambar'', summary = ''Tidak ada ringkasan'' \<rparr>"
    by simp
  with r e show ?thesis by simp
qed

text \<open>
  On the page with no element at all the record holds the five placeholders of the
  program, none of which is the string the specification names (\<open>no title\<close>,
  \<open>no summary\<close>, \<open>unknown\<close>, \<open>no time\<close>, \<open>no image\<close>). On the page whose only element is an
  image with the source \<open>http://[bad/x.jpg\<close>, which has no source for the title, the
  summary, the author or the time, no record is returned: the extractor raises.
\<close>

theorem spec_sentinels_counterexample:
  "extract_article_metadata blank_world article_url =
     Inr (Some \<lparr> title = ''Tidak ada judul'', link = article_url,
                  publication_time = ''Tidak ada waktu'', author = ''Tidak diketahui'',
                  image_url = ''Tidak ada gambar'', summary = ''Tidak ada ringkasan'' \<rparr>) \<and>
   ''Tidak ada judul'' \<noteq> ''no title'' \<and> ''Tidak ada ringkasan'' \<noteq> ''no summary'' \<and>
   ''Tidak diketahui'' \<noteq> ''unknown'' \<and> ''Tidak ada waktu'' \<noteq> ''no time'' \<and>
   ''Tidak ada gambar'' \<noteq> ''no image'' \<and>
   http_get bad_image_world article_url = Page bad_image_page \<and>
   meta_property bad_image_page ''og:title'' = None \<and>
   find_tag bad_image_page ''title'' = None \<and>
   extract_article_metadata bad_image_world article_url = Inl ValueError"
proof -
  have h: "http_get blank_world article_url = Page (soup_of [])"
    by (simp add: blank_world_def)
  have a: "extract_article_metadata blank_world article_url =
     Inr (Some \<lparr> title = ''Tidak ada judul'', link = article_url,
                  publication_time = ''Tidak ada waktu'', author = ''Tidak diketahui'',
                  image_url = ''Tidak ada gambar'', summary = ''Tidak ada ringkasan'' \<rparr>)"
    by (simp add: extract_Page [OF h] image_chain extract_title_def extract_summary_def
      extract_author_def extract_publication_time_def
      meta_property_def meta_name_def find_tag_def find_class_def)
  have b: "meta_property bad_image_page ''og:title'' = None"
    "find_tag bad_image_page ''title'' = None"
    by code_simp+
  have c: "http_get bad_image_world article_url = Page bad_image_page"
    by (simp add: bad_image_world_def)
  show ?thesis
    by (simp add: a b c bad_image_raises)
qed

section \<open>Priority of the sources\<close>

text \<open>
  C5, as the program has it. In a record returned for a fetched page, each chain is
  taken in the order of the specification, but what makes a source count differs with
  the field. The \<open>og:title\<close> content gives the title when it is not blank; when it is
  absent, empty or blank the \<open>title\<close> element gives it. For the other fields an attribute
  source counts as soon as it is a non-empty string, blank or not: its stripped value is
  the field whatever the later sources have, and a later source is used only when every
  earlier attribute is absent or empty. Attribute values are stripped, element texts are
  \<open>get_text(strip=True)\<close>, and the image source is what \<open>urljoin\<close> of the page URL and the
  source returns.
\<close>

theorem priority_order:
  assumes "http_get w url = Page soup" and "extract_article_metadata w url = Inr (Some r)"
  shows
    "(\<forall>c. get_truthy (meta_property soup ''og:title'') ''content'' = Some c \<and> strip c \<noteq> []
        \<longrightarrow> title r = strip c) \<and>
     (\<forall>t. (\<forall>c. get_truthy (meta_property soup ''og:title'') ''content'' = Some c
                \<longrightarrow> strip c = [])
          \<and> find_tag soup ''title'' = Some t
        \<longrightarrow> title r = get_text_strip t) \<and>
     (\<forall>c. get_truthy (meta_name soup ''description'') ''content'' = Some c
        \<longrightarrow> summary r = strip c) \<and>
     (\<forall>c. get_truthy (meta_name soup ''description'') ''content'' = None
          \<and> get_truthy (meta_property soup ''og:description'') ''content'' = Some c
        \<longrightarrow> summary r = strip c) \<and>
     (\<forall>p. get_truthy (meta_name soup ''description'') ''content'' = None
          \<and> get_truthy (meta_property soup ''og:description'') ''content'' = None
          \<and> find_tag soup ''p'' = Some p
        \<longrightarrow> summary r = get_text_strip p) \<and>
     (\<forall>c. get_truthy (meta_name soup ''author'') ''content'' = Some c
        \<longrightarrow> author r = strip c) \<and>
     (\<forall>c. get_truthy (meta_name soup ''author'') ''content'' = None
          \<and> get_truthy (meta_property soup ''article:author'') ''content'' = Some c
        \<longrightarrow> author r = strip c) \<and>
     (\<forall>a. get_truthy (meta_name soup ''author'') ''content'' = None
          \<and> get_truthy (meta_property soup ''article:author'') ''content'' = None
          \<and> find_class soup ''read__author'' = Some a
        \<longrightarrow> author r = get_text_strip a) \<and>
     (\<forall>a. get_truthy (meta_name soup ''author'') ''content'' = None
          \<and> get_truthy (meta_property soup ''article:author'') ''content'' = None
          \<and> find_class soup ''read__author'' = None \<and> find_class soup ''author'' = Some a
        \<longrightarrow> author r = get_text_strip a) \<and>
     (\<forall>c. get_truthy (meta_property soup ''article:published_time'') ''content'' = Some c
        \<longrightarrow> publication_time r = strip c) \<and>
     (\<forall>c. get_truthy (meta_property soup ''article:published_time'') ''content'' = None
          \<and> get_truthy (find_tag soup ''time'') ''datetime'' = Some c
        \<longrightarrow> publication_time r = strip c) \<and>
     (\<forall>t. get_truthy (meta_property soup ''article:published_time'') ''content'' = None
          \<and> get_truthy (find_tag soup ''time'') ''datetime'' = None
          \<and> find_tag soup ''time'' = Some t
        \<longrightarrow> publication_time r = get_text_strip t) \<and>
     (\<forall>c. get_truthy (meta_property soup ''og:image'') ''content'' = Some c
        \<longrightarrow> image_url r = strip c) \<and>
     (\<forall>c. get_truthy (meta_property soup ''og:image'') ''content'' = None
          \<and> get_truthy (find_tag soup ''img'') ''src'' = Some c
        \<longrightarrow> urljoin w url c = Inr (image_url r))"
proof -
  from extract_record_fields [OF assms]
  have f: "title r = extract_title soup" "summary r = extract_summary soup"
    "author r = extract_author soup" "publication_time r = extract_publication_time soup"
    and i: "extract_image_url w url soup = Inr (image_url r)"
    by simp_all
  have t: "(\<forall>c. get_truthy (meta_property soup ''og:title'') ''content'' = Some c \<and> strip c \<noteq> []
        \<longrightarrow> extract_title soup = strip c) \<and>
     (\<forall>t. (\<forall>c. get_truthy (meta_property soup ''og:title'') ''content'' = Some c
                \<longrightarrow> strip c = [])
          \<and> find_tag soup ''title'' = Some t
        \<longrightarrow> extract_title soup = get_text_strip t)"
    by (auto simp: extract_title_def Let_def split: option.splits)
  have s: "(\<forall>c. get_truthy (meta_name soup ''description'') ''content'' = Some c
        \<longrightarrow> extract_summary soup = strip c) \<and>
     (\<forall>c. get_truthy (meta_name soup ''description'') ''content'' = None
          \<and> get_truthy (meta_property soup ''og:description'') ''content'' = Some c
        \<longrightarrow> extract_summary soup = strip c) \<and>
     (\<forall>p. get_truthy (meta_name soup ''description'') ''content'' = None
          \<and> get_truthy (meta_property soup ''og:description'') ''content'' = None
          \<and> find_tag soup ''p'' = Some p
        \<longrightarrow> extract_summary soup = get_text_strip p)"
    by (auto simp: extract_summary_def Let_def)
  have a: "(\<forall>c. get_truthy (meta_name soup ''author'') ''content'' = Some c
        \<longrightarrow> extract_author soup = strip c) \<and>
     (\<forall>c. get_truthy (meta_name soup ''author'') ''content'' = None
          \<and> get_truthy (meta_property soup ''article:author'') ''content'' = Some c
        \<longrightarrow> extract_author soup = strip c) \<and>
     (\<forall>a. get_truthy (meta_name soup ''author'') ''content'' = None
          \<and> get_truthy (meta_property soup ''article:author'') ''content'' = None
          \<and> find_class soup ''read__author'' = Some a
        \<longrightarrow> extract_author soup = get_text_strip a) \<and>
     (\<forall>a. get_truthy (meta_name soup ''author'') ''content'' = None
          \<and> get_truthy (meta_property soup ''article:author'') ''content'' = None
          \<and> find_class soup ''read__author'' = None \<and> find_class soup ''author'' = Some a
        \<longrightarrow> extract_author soup = get_text_strip a)"
    by (auto simp: extract_author_def Let_def)
  have p: "(\<forall>c. get_truthy (meta_property soup ''article:published_time'') ''content'' = Some c
        \<longrightarrow> extract_publication_time soup = strip c) \<and>
     (\<forall>c. get_truthy (meta_property soup ''article:published_time'') ''content'' = None
          \<and> get_truthy (find_tag soup ''time'') ''datetime'' = Some c
        \<longrightarrow> extract_publication_time soup = strip c) \<and>
     (\<forall>t. get_truthy (meta_property soup ''article:published_time'') ''content'' = None
          \<and> get_truthy (find_tag soup ''time'') ''datetime'' = None
          \<and> find_tag soup ''time'' = Some t
        \<longrightarrow> extract_publication_time soup = get_text_strip t)"
    by (auto simp: extract_publication_time_def Let_def)
  have g: "(\<forall>c. get_truthy (meta_property soup ''og:image'') ''content'' = Some c
        \<longrightarrow> image_url r = strip c) \<and>
     (\<forall>c. get_truthy (meta_property soup ''og:image'') ''content'' = None
          \<and> get_truthy (find_tag soup ''img'') ''src'' = Some c
        \<longrightarrow> urljoin w url c = Inr (image_url r))"
    using i by (auto simp: image_chain)
  from t s a p g show ?thesis
    unfolding f by (elim conjE, intro conjI) assumption+
qed

lemma full_record:
  "extract_article_metadata full_world article_url =
     Inr (Some \<lparr> title = ''Title A'', link = article_url,
                  publication_time = ''2024-01-02T03:04:05+07:00'', author = ''Author A'',
                  image_url = ''https://img.example/a.jpg'', summary = ''Summary A'' \<rparr>)"
proof -
  have h: "http_get full_world article_url = Page full_page"
    by (simp add: full_world_def)
  have f: "extract_title full_page = ''Title A''"
    "extract_summary full_page = ''Summary A''"
    "extract_author full_page = ''Author A''"
    "extract_publication_time full_page = ''2024-01-02T03:04:05+07:00''"
    "get_truthy (meta_property full_page ''og:image'') ''content''
       = Some ''https://img.example/a.jpg''"
    "strip ''https://img.example/a.jpg'' = ''https://img.example/a.jpg''"
    by code_simp+
  show ?thesis by (simp add: extract_Page [OF h] image_chain f)
qed

lemma second_record:
  "extract_article_metadata second_world article_url =
     Inr (Some \<lparr> title = ''Title B'', link = article_url,
                  publication_time = ''2024-01-02'', author = ''Author B'',
                  image_url = ''https://www.kompas.com/img/b.jpg'', summary = ''Summary B'' \<rparr>)"
proof -
  have h: "http_get second_world article_url = Page second_page"
    by (simp add: second_world_def)
  have f: "extract_title second_page = ''Title B''"
    "extract_summary second_page = ''Summary B''"
    "extract_author second_page = ''Author B''"
    "extract_publication_time second_page = ''2024-01-02''"
    "get_truthy (meta_property second_page ''og:image'') ''content'' = None"
    "get_truthy (find_tag second_page ''img'') ''src'' = Some ''/img/b.jpg''"
    by code_simp+
  have j: "py_urljoin any_valid article_url ''/img/b.jpg''
      = Inr ''https://www.kompas.com/img/b.jpg''"
    by code_simp
  have "urljoin second_world article_url ''/img/b.jpg'' = Inr ''https://www.kompas.com/img/b.jpg''"
    by (simp add: second_world_def j)
  then show ?thesis by (simp add: extract_Page [OF h] image_chain f)
qed

lemma third_record:
  "extract_article_metadata third_world article_url =
     Inr (Some \<lparr> title = ''Tidak ada judul'', link = article_url,
                  publication_time = ''2 Jan'', author = ''Author C'',
                  image_url = ''Tidak ada gambar'', summary = ''Firstparagraph'' \<rparr>)"
proof -
  have h: "http_get third_world article_url = Page third_page"
    by (simp add: third_world_def)
  have f: "extract_title third_page = ''Tidak ada judul''"
    "extract_summary third_page = ''Firstparagraph''"
    "extract_author third_page = ''Author C''"
    "extract_publication_time third_page = ''2 Jan''"
    "get_truthy (meta_property third_page ''og:image'') ''content'' = None"
    "get_truthy (find_tag third_page ''img'') ''src'' = None"
    by code_simp+
  show ?thesis by (simp add: extract_Page [OF h] image_chain f)
qed

text \<open>
  The three example pages: every source present, the first source of each field missing,
  and only the last source left. The first has \<open>og:title\<close> "Title A" and \<open>title\<close>
  "Title B". The paragraph of the third holds a script and a comment, which
  \<open>get_text\<close> leaves out.
\<close>

theorem priority_order_witness:
  "extract_article_metadata full_world article_url =
     Inr (Some \<lparr> title = ''Title A'', link = article_url,
                  publication_time = ''2024-01-02T03:04:05+07:00'', author = ''Author A'',
                  image_url = ''https://img.example/a.jpg'', summary = ''Summary A'' \<rparr>) \<and>
   extract_article_metadata second_world article_url =
     Inr (Some \<lparr> title = ''Title B'', link = article_url,
                  publication_time = ''2024-01-02'', author = ''Author B'',
                  image_url = ''https://www.kompas.com/img/b.jpg'', summary = ''Summary B'' \<rparr>) \<and>
   extract_article_metadata third_world article_url =
     Inr (Some \<lparr> title = ''Tidak ada judul'', link = article_url,
                  publication_time = ''2 Jan'', author = ''Author C'',
                  image_url = ''Tidak ada gambar'', summary = ''Firstparagraph'' \<rparr>) \<and>
   get_truthy (meta_property full_page ''og:title'') ''content'' = Some ''Title A'' \<and>
   find_tag full_page ''title'' = Some (Tag ''title'' [] [NavigableString ''Title B'']) \<and>
   title \<lparr> title = ''Title A'', link = article_url,
           publication_time = ''2024-01-02T03:04:05+07:00'', author = ''Author A'',
           image_url = ''https://img.example/a.jpg'', summary = ''Summary A'' \<rparr>
     = strip ''Title A'' \<and>
   summary \<lparr> title = ''Title B'', link = article_url,
             publication_time = ''2024-01-02'', author = ''Author B'',
             image_url = ''https://www.kompas.com/img/b.jpg'', summary = ''Summary B'' \<rparr>
     = strip ''Summary B'' \<and>
   publication_time \<lparr> title = ''Tidak ada judul'', link = article_url,
             publication_time = ''2 Jan'', author = ''Author C'',
             image_url = ''Tidak ada gambar'', summary = ''Firstparagraph'' \<rparr>
     = get_text_strip (Tag ''time'' [] [NavigableString ''2 Jan''])"
proof -
  have hF: "http_get full_world article_url = Page full_page"
    by (simp add: full_world_def)
  have f: "get_truthy (meta_property full_page ''og:title'') ''content'' = Some ''Title A''"
    "strip ''Title A'' \<noteq> []"
    "find_tag full_page ''title'' = Some (Tag ''title'' [] [NavigableString ''Title B''])"
    by code_simp+
  have "\<forall>c. get_truthy (meta_property full_page ''og:title'') ''content'' = Some c
        \<and> strip c \<noteq> []
      \<longrightarrow> title \<lparr> title = ''Title A'', link = article_url,
           publication_time = ''2024-01-02T03:04:05+07:00'', author = ''Author A'',
           image_url = ''https://img.example/a.jpg'', summary = ''Summary A'' \<rparr> = strip c"
    using priority_order [OF hF full_record] by (elim conjE)
  with f
  have a: "title \<lparr> title = ''Title A'', link = article_url,
           publication_time = ''2024-01-02T03:04:05+07:00'', author = ''Author A'',
           image_url = ''https://img.example/a.jpg'', summary = ''Summary A'' \<rparr>
     = strip ''Title A''"
    by blast
  have hS: "http_get second_world article_url = Page second_page"
    by (simp add: second_world_def)
  have g: "get_truthy (meta_name second_page ''description'') ''content'' = None"
    "get_truthy (meta_property second_page ''og:description'') ''content'' = Some ''Summary B''"
    by code_simp+
  have "\<forall>c. get_truthy (meta_name second_page ''description'') ''content'' = None
        \<and> get_truthy (meta_property second_page ''og:description'') ''content'' = Some c
      \<longrightarrow> summary \<lparr> title = ''Title B'', link = article_url,
             publication_time = ''2024-01-02'', author = ''Author B'',
             image_url = ''https://www.kompas.com/img/b.jpg'', summary = ''Summary B'' \<rparr>
           = strip c"
    using priority_order [OF hS second_record] by (elim conjE)
  with g
  have b: "summary \<lparr> title = ''Title B'', link = article_url,
             publication_time = ''2024-01-02'', author = ''Author B'',
             image_url = ''https://www.kompas.com/img/b.jpg'', summary = ''Summary B'' \<rparr>
     = strip ''Summary B''"
    by blast
  have hT: "http_get third_world article_url = Page third_page"
    by (simp add: third_world_def)
  have k: "get_truthy (meta_property third_page ''article:published_time'') ''content'' = None"
    "get_truthy (find_tag third_page ''time'') ''datetime'' = None"
    "find_tag third_page ''time'' = Some (Tag ''time'' [] [NavigableString ''2 Jan''])"
    by code_simp+
  have "\<forall>t. get_truthy (meta_property third_page ''article:published_time'') ''content'' = None
        \<and> get_truthy (find_tag third_page ''time'') ''datetime'' = None
        \<and> find_tag third_page ''time'' = Some t
      \<longrightarrow> publication_time \<lparr> title = ''Tidak ada judul'', link = article_url,
             publication_time = ''2 Jan'', author = ''Author C'',
             image_url = ''Tidak ada gambar'', summary = ''Firstparagraph'' \<rparr>
           = get_text_strip t"
    using priority_order [OF hT third_record] by (elim conjE)
  with k
  have c: "publication_time \<lparr> title = ''Tidak ada judul'', link = article_url,
             publication_time = ''2 Jan'', author = ''Author C'',
             image_url = ''Tidak ada gambar'', summary = ''Firstparagraph'' \<rparr>
     = get_text_strip (Tag ''time'' [] [NavigableString ''2 Jan''])"
    by blast
  from full_record second_record third_record f(1) f(3) a b c show ?thesis
    by (intro conjI)
qed

text \<open>
  A page whose \<open>og:title\<close> and description are both three spaces, with a \<open>title\<close> element
  "Title B" and an \<open>og:description\<close> "Summary B". The title is that of the second
  source, so the blank first source counted as missing; the summary is empty, so the
  blank first source counted as present and the second source was not returned. Whether
  a blank attribute is read as present or as missing, one of the two fields is not what
  the claim says.
\<close>

theorem blank_primary_counterexample:
  "http_get blank_first_world article_url = Page blank_first_page \<and>
   get_attr (the (meta_property blank_first_page ''og:title'')) ''content'' = Some ''   '' \<and>
   find_tag blank_first_page ''title'' = Some (Tag ''title'' [] [NavigableString ''Title B'']) \<and>
   get_attr (the (meta_name blank_first_page ''description'')) ''content'' = Some ''   '' \<and>
   get_attr (the (meta_property blank_first_page ''og:description'')) ''content''
     = Some ''Summary B'' \<and>
   extract_article_metadata blank_first_world article_url =
     Inr (Some \<lparr> title = ''Title B'', link = article_url,
                  publication_time = ''Tidak ada waktu'', author = ''Tidak diketahui'',
                  image_url = ''Tidak ada gambar'', summary = [] \<rparr>)"
proof -
  have h: "http_get blank_first_world article_url = Page blank_first_page"
    by (simp add: blank_first_world_def)
  have e: "get_attr (the (meta_property blank_first_page ''og:title'')) ''content''
      = Some ''   ''"
    "find_tag blank_first_page ''title''
      = Some (Tag ''title'' [] [NavigableString ''Title B''])"
    "get_attr (the (meta_name blank_first_page ''description'')) ''content'' = Some ''   ''"
    "get_attr (the (meta_property blank_first_page ''og:description'')) ''content''
      = Some ''Summary B''"
    by code_simp+
  have f: "extract_title blank_first_page = ''Title B''"
    "extract_summary blank_first_page = []"
    "extract_author blank_first_page = ''Tidak diketahui''"
    "extract_publication_time blank_first_page = ''Tidak ada waktu''"
    "get_truthy (meta_property blank_first_page ''og:image'') ''content'' = None"
    "get_truthy (find_tag blank_first_page ''img'') ''src'' = None"
    by code_simp+
  have "extract_article_metadata blank_first_world article_url =
     Inr (Some \<lparr> title = ''Title B'', link = article_url,
                  publication_time = ''Tidak ada waktu'', author = ''Tidak diketahui'',
                  image_url = ''Tidak ada gambar'', summary = [] \<rparr>)"
    by (simp add: extract_Page [OF h] image_chain f)
  with h e show ?thesis by (intro conjI)
qed

section \<open>Trimmed and empty fields\<close>

text \<open>
  C4, as the program has it. In a record returned for a fetched page, the title, the
  summary, the author and the publication time are whitespace-trimmed, and so is the
  image URL unless it is the result of \<open>urljoin\<close> on an \<open>img\<close> source; and a field is the
  empty string only when one of the sources of its chain is there and blank (an element
  without visible text, an attribute of whitespace only, or a \<open>urljoin\<close> that returns the
  empty string). A field whose chain ends at the placeholder is not empty.
\<close>

theorem fields_trimmed_empty_only_if_blank_source:
  assumes "http_get w url = Page soup" and "extract_article_metadata w url = Inr (Some r)"
  shows
    "strip (title r) = title r \<and> strip (summary r) = summary r \<and>
     strip (author r) = author r \<and> strip (publication_time r) = publication_time r \<and>
     (strip (image_url r) = image_url r \<or>
      (\<exists>c. get_truthy (meta_property soup ''og:image'') ''content'' = None
           \<and> get_truthy (find_tag soup ''img'') ''src'' = Some c
           \<and> urljoin w url c = Inr (image_url r))) \<and>
     (title r = [] \<longrightarrow>
        (\<exists>t. find_tag soup ''title'' = Some t \<and> get_text_strip t = [])) \<and>
     (summary r = [] \<longrightarrow>
        (\<exists>c. get_truthy (meta_name soup ''description'') ''content'' = Some c \<and> strip c = []) \<or>
        (\<exists>c. get_truthy (meta_property soup ''og:description'') ''content'' = Some c
             \<and> strip c = []) \<or>
        (\<exists>p. find_tag soup ''p'' = Some p \<and> get_text_strip p = [])) \<and>
     (author r = [] \<longrightarrow>
        (\<exists>c. get_truthy (meta_name soup ''author'') ''content'' = Some c \<and> strip c = []) \<or>
        (\<exists>c. get_truthy (meta_property soup ''article:author'') ''content'' = Some c
             \<and> strip c = []) \<or>
        (\<exists>a. (find_class soup ''read__author'' = Some a \<or> find_class soup ''author'' = Some a)
             \<and> get_text_strip a = [])) \<and>
     (publication_time r = [] \<longrightarrow>
        (\<exists>c. get_truthy (meta_property soup ''article:published_time'') ''content'' = Some c
             \<and> strip c = []) \<or>
        (\<exists>c. get_truthy (find_tag soup ''time'') ''datetime'' = Some c \<and> strip c = []) \<or>
        (\<exists>t. find_tag soup ''time'' = Some t \<and> get_text_strip t = [])) \<and>
     (image_url r = [] \<longrightarrow>
        (\<exists>c. get_truthy (meta_property soup ''og:image'') ''content'' = Some c \<and> strip c = []) \<or>
        (\<exists>c. get_truthy (find_tag soup ''img'') ''src'' = Some c \<and> urljoin w url c = Inr []))"
proof -
  from extract_record_fields [OF assms]
  have f: "title r = extract_title soup" "summary r = extract_summary soup"
    "author r = extract_author soup" "publication_time r = extract_publication_time soup"
    and i: "extract_image_url w url soup = Inr (image_url r)"
    by simp_all
  have ie: "image_url r = [] \<longrightarrow>
        (\<exists>c. get_truthy (meta_property soup ''og:image'') ''content'' = Some c \<and> strip c = []) \<or>
        (\<exists>c. get_truthy (find_tag soup ''img'') ''src'' = Some c \<and> urljoin w url c = Inr [])"
    using i image_url_empty [of w url soup] by auto
  show ?thesis
    using title_trimmed [of soup] summary_trimmed [of soup] author_trimmed [of soup]
      publication_time_trimmed [of soup] image_url_trimmed [OF i]
      title_empty [of soup] summary_empty [of soup] author_empty [of soup]
      publication_time_empty [of soup] ie
    by (simp only: f) blast
qed

lemma blank_record:
  "extract_article_metadata blank_world article_url =
     Inr (Some \<lparr> title = ''Tidak ada judul'', link = article_url,
                  publication_time = ''Tidak ada waktu'', author = ''Tidak diketahui'',
                  image_url = ''Tidak ada gambar'', summary = ''Tidak ada ringkasan'' \<rparr>)"
proof -
  have h: "http_get blank_world article_url = Page (soup_of [])"
    by (simp add: blank_world_def)
  show ?thesis
    by (simp add: extract_Page [OF h] image_chain extract_title_def extract_summary_def
      extract_author_def extract_publication_time_def
      meta_property_def meta_name_def find_tag_def find_class_def)
qed

text \<open>The page with every source: the fields are trimmed (the description is
  \<open>" Summary A "\<close>). The page with none: no field is empty.\<close>

theorem fields_trimmed_empty_only_if_blank_source_witness:
  "get_truthy (meta_name full_page ''description'') ''content'' = Some '' Summary A '' \<and>
   strip ''Summary A'' = ''Summary A'' \<and> strip ''Title A'' = ''Title A'' \<and>
   strip ''Author A'' = ''Author A'' \<and>
   find_tag (soup_of []) ''title'' = None \<and> ''Tidak ada judul'' \<noteq> []"
proof -
  have hF: "http_get full_world article_url = Page full_page"
    by (simp add: full_world_def)
  have d: "get_truthy (meta_name full_page ''description'') ''content'' = Some '' Summary A ''"
    by code_simp
  from fields_trimmed_empty_only_if_blank_source [OF hF full_record]
  have a: "strip ''Summary A'' = ''Summary A''" "strip ''Title A'' = ''Title A''"
    "strip ''Author A'' = ''Author A''"
    by simp_all
  have hB: "http_get blank_world article_url = Page (soup_of [])"
    by (simp add: blank_world_def)
  have n: "find_tag (soup_of []) ''title'' = None"
    by (simp add: find_tag_def)
  from fields_trimmed_empty_only_if_blank_source [OF hB blank_record] n
  have b: "''Tidak ada judul'' \<noteq> []"
    by simp
  from d a n b show ?thesis by (intro conjI)
qed

text \<open>
  A page with a \<open>time\<close> element that has neither a \<open>datetime\<close> attribute nor text, an empty
  \<open>title\<close> element and a description of spaces: a record is returned, and its title, its
  publication time and its summary are the empty string.
\<close>

theorem nonempty_fields_counterexample:
  "http_get hollow_world article_url = Page hollow_page \<and>
   extract_article_metadata hollow_world article_url =
     Inr (Some \<lparr> title = [], link = article_url, publication_time = [],
                  author = ''Tidak diketahui'', image_url = ''Tidak ada gambar'',
                  summary = [] \<rparr>)"
proof -
  have h: "http_get hollow_world article_url = Page hollow_page"
    by (simp add: hollow_world_def)
  have f: "extract_title hollow_page = []"
    "extract_summary hollow_page = []"
    "extract_author hollow_page = ''Tidak diketahui''"
    "extract_publication_time hollow_page = []"
    "get_truthy (meta_property hollow_page ''og:image'') ''content'' = None"
    "get_truthy (find_tag hollow_page ''img'') ''src'' = None"
    by code_simp+
  show ?thesis by (simp add: extract_Page [OF h] image_chain f h)
qed

section \<open>Facts about the collector\<close>

lemma set_set_add: "set (set_add x xs) = insert x (set xs)"
  by (auto simp: set_add_def)

lemma distinct_set_add: "distinct xs \<Longrightarrow> distinct (set_add x xs)"
  by (simp add: set_add_def)

lemma fold_keys_set:
  "set (fold (\<lambda>x keys. if x \<in> set keys then keys else keys @ [x]) xs acc) = set acc \<union> set xs"
  by (induction xs arbitrary: acc) auto

lemma fold_keys_distinct:
  "distinct acc \<Longrightarrow>
   distinct (fold (\<lambda>x keys. if x \<in> set keys then keys else keys @ [x]) xs acc)"
  by (induction xs arbitrary: acc) auto

lemma fold_keys_id:
  "distinct (acc @ xs) \<Longrightarrow>
   fold (\<lambda>x keys. if x \<in> set keys then keys else keys @ [x]) xs acc = acc @ xs"
  by (induction xs arbitrary: acc) auto

lemma set_fromkeys: "set (fromkeys xs) = set xs"
  by (simp add: fromkeys_def fold_keys_set)

lemma distinct_fromkeys: "distinct (fromkeys xs)"
  by (simp add: fromkeys_def fold_keys_distinct)

lemma fromkeys_distinct_id: "distinct xs \<Longrightarrow> fromkeys xs = xs"
  by (simp add: fromkeys_def fold_keys_id)

lemma set_set_iter: "set (set_iter w xs) = set xs"
  by (simp add: set_iter_def)

lemma set_iter_single [simp]: "set_iter w [x] = [x]"
  by (simp add: set_iter_def)

lemma set_iter_const: "set_slot w = (\<lambda>u. 0) \<Longrightarrow> set_iter w xs = xs"
  by (simp add: set_iter_def sort_key_const)

lemma collect_Page:
  "http_get w BASE_URL = Page soup \<Longrightarrow>
   collect_article_links_from_home w
     = (case candidate_links w soup of
          Inl e \<Rightarrow> Inl e
        | Inr links \<Rightarrow> Inr (fromkeys (map strip_fragment (set_iter w links))))"
  by (simp add: collect_article_links_from_home_def get_soup_def Let_def split: sum.splits)

text \<open>The list the collector returns has no duplicate, and holds the fragment-stripped
  forms of the links of the set.\<close>

lemma distinct_collect: "collect_article_links_from_home w = Inr links \<Longrightarrow> distinct links"
  by (cases "http_get w BASE_URL")
    (auto simp: collect_Page distinct_fromkeys collect_article_links_from_home_def
      get_soup_def split: sum.splits)

lemma set_collect:
  "http_get w BASE_URL = Page soup \<Longrightarrow> collect_article_links_from_home w = Inr links \<Longrightarrow>
   \<exists>cands. candidate_links w soup = Inr cands \<and> set links = strip_fragment ` set cands"
  by (auto simp: collect_Page set_fromkeys set_set_iter split: sum.splits)

lemma structural_fold_set:
  "for_each (structural_step w) arts acc = Inr links \<Longrightarrow> l \<in> set links \<Longrightarrow>
   l \<in> set acc \<or>
   (\<exists>art a. art \<in> set arts \<and> soup_find art (Some ''a'') [(''href'', AnyValue)] = Some a
      \<and> urljoin w BASE_URL (subscript a ''href'') = Inr l)"
proof (induction arts arbitrary: acc)
  case Nil
  then show ?case by simp
next
  case (Cons art arts)
  from Cons.prems(1) obtain acc' where
    s: "structural_step w art acc = Inr acc'"
    and r: "for_each (structural_step w) arts acc' = Inr links"
    by (auto split: sum.splits)
  from Cons.IH [OF r Cons.prems(2)] s show ?case
    by (auto simp: structural_step_def set_set_add split: option.splits sum.splits)
qed

lemma resolve_href_parsed:
  "resolve_href w h = Inr (h', p) \<Longrightarrow> urlparse w h' = Inr p"
  by (auto simp: resolve_href_def split: sum.splits if_splits)

lemma heuristic_step_set:
  "heuristic_step w a links = Inr links' \<Longrightarrow> l \<in> set links' \<Longrightarrow>
   l \<in> set links \<or> in_domain w l"
  by (auto simp: heuristic_step_def Let_def in_domain_def set_set_add
      dest!: resolve_href_parsed split: if_splits sum.splits prod.splits)

lemma heuristic_fold_set:
  "for_each (heuristic_step w) anchors acc = Inr links \<Longrightarrow> l \<in> set links \<Longrightarrow>
   l \<in> set acc \<or> in_domain w l"
proof (induction anchors arbitrary: acc)
  case Nil
  then show ?case by simp
next
  case (Cons a anchors)
  from Cons.prems(1) obtain acc' where
    s: "heuristic_step w a acc = Inr acc'"
    and r: "for_each (heuristic_step w) anchors acc' = Inr links"
    by (auto split: sum.splits)
  from Cons.IH [OF r Cons.prems(2)] heuristic_step_set [OF s, of l] show ?case by blast
qed

lemma candidate_links_origin:
  "candidate_links w soup = Inr links \<Longrightarrow> l \<in> set links \<Longrightarrow>
   (\<exists>art a. art \<in> set (find_all soup (Some ''article'') [])
      \<and> soup_find art (Some ''a'') [(''href'', AnyValue)] = Some a
      \<and> urljoin w BASE_URL (subscript a ''href'') = Inr l)
   \<or> in_domain w l"
proof -
  assume c: "candidate_links w soup = Inr links" and l: "l \<in> set links"
  from c obtain ls where
    s: "for_each (structural_step w) (find_all soup (Some ''article'') []) [] = Inr ls"
    and h: "for_each (heuristic_step w) (find_all soup (Some ''a'') [(''href'', AnyValue)]) ls
      = Inr links"
    by (auto simp: candidate_links_def structural_links_def split: sum.splits)
  from heuristic_fold_set [OF h l] structural_fold_set [OF s, of l] show ?thesis by auto
qed

lemma heuristic_step_accepts:
  "subscript a ''href'' \<noteq> [] \<Longrightarrow>
   resolve_href w (subscript a ''href'') = Inr (href', parsed) \<Longrightarrow>
   contains ''kompas.com'' (netloc parsed) \<Longrightarrow>
   list_ex (\<lambda>m. contains m (path parsed)) section_markers \<or> 30 < length (get_text_strip a) \<Longrightarrow>
   heuristic_step w a links = Inr (set_add href' links)"
  by (auto simp: heuristic_step_def Let_def)

lemma subscript_anchor [simp]: "subscript (anchor h s) ''href'' = h"
  by (simp add: subscript_def anchor_def)

lemma get_text_strip_anchor: "get_text_strip (anchor h s) = strip s"
  by (simp add: anchor_def string_container_def)

section \<open>Facts about the loop of main\<close>

lemma record_of_simps:
  "extract_article_metadata w l = Inl e \<Longrightarrow> record_of w l = None"
  "extract_article_metadata w l = Inr None \<Longrightarrow> record_of w l = None"
  "extract_article_metadata w l = Inr (Some meta) \<Longrightarrow> record_of w l = Some meta"
  by (simp_all add: record_of_def)

lemma candidate_record_simps:
  "urlparse w l = Inr parsed \<Longrightarrow> \<not> contains ''kompas.com'' (netloc parsed) \<Longrightarrow>
   candidate_record w l = None"
  "urlparse w l = Inr parsed \<Longrightarrow> contains ''kompas.com'' (netloc parsed) \<Longrightarrow>
   candidate_record w l = record_of w l"
  by (simp_all add: candidate_record_def in_domain_def)

lemma processed_main_loop:
  "l \<in> set (processed (main_loop w ls st)) \<Longrightarrow>
   l \<in> set (processed st) \<or> (l \<in> set ls \<and> in_domain w l)"
proof (induction ls arbitrary: st)
  case Nil
  then show ?case by simp
next
  case (Cons x ls)
  show ?case
  proof (cases "count st \<ge> MAX_ARTICLES")
    case True
    with Cons.prems show ?thesis by simp
  next
    case False
    show ?thesis
    proof (cases "urlparse w x")
      case (Inl e)
      with False Cons.prems show ?thesis by simp
    next
      case (Inr parsed)
      show ?thesis
      proof (cases "contains ''kompas.com'' (netloc parsed)")
        case no: False
        with False Inr Cons.prems have "l \<in> set (processed (main_loop w ls st))"
          by simp
        from Cons.IH [OF this] show ?thesis by auto
      next
        case True
        then have d: "in_domain w x" by (simp add: in_domain_def Inr)
        show ?thesis
        proof (cases "extract_article_metadata w x")
          case e: (Inl e)
          with False Inr True Cons.prems d show ?thesis by (auto simp: Let_def)
        next
          case r: (Inr r)
          show ?thesis
          proof (cases r)
            case None
            with False Inr True r Cons.prems
            have "l \<in> set (processed (main_loop w ls (st\<lparr>processed := processed st @ [x]\<rparr>)))"
              by (simp add: Let_def)
            from Cons.IH [OF this] d show ?thesis by auto
          next
            case (Some meta)
            with False Inr True r Cons.prems
            have "l \<in> set (processed (main_loop w ls
                (st\<lparr>processed := processed st @ [x],
                    collected_data := collected_data st @ [meta],
                    count := count st + 1\<rparr>)))"
              by (simp add: Let_def)
            from Cons.IH [OF this] d show ?thesis by auto
          qed
        qed
      qed
    qed
  qed
qed

text \<open>What the loop adds: the links it processes, their records, and as many counts.\<close>

lemma main_loop_trace:
  "\<exists>ps. processed (main_loop w ls st) = processed st @ ps \<and>
        collected_data (main_loop w ls st)
          = collected_data st @ List.map_filter (record_of w) ps \<and>
        count (main_loop w ls st)
          = count st + length (List.map_filter (record_of w) ps)"
proof (induction ls arbitrary: st)
  case Nil
  show ?case by (simp add: List.map_filter_simps)
next
  case (Cons l ls)
  show ?case
  proof (cases "count st \<ge> MAX_ARTICLES")
    case True
    then show ?thesis by (simp add: List.map_filter_simps)
  next
    case False
    show ?thesis
    proof (cases "urlparse w l")
      case (Inl e)
      with False show ?thesis by (simp add: List.map_filter_simps)
    next
      case (Inr parsed)
      show ?thesis
      proof (cases "contains ''kompas.com'' (netloc parsed)")
        case no: False
        with False Inr Cons.IH [of st] show ?thesis by simp
      next
        case True
        show ?thesis
        proof (cases "extract_article_metadata w l")
          case e: (Inl e)
          with False Inr True show ?thesis
            by (intro exI [of _ "[l]"])
              (simp add: List.map_filter_simps Let_def record_of_simps)
        next
          case r: (Inr r)
          show ?thesis
          proof (cases r)
            case None
            from Cons.IH [of "st\<lparr>processed := processed st @ [l]\<rparr>"] obtain ps where
              "processed (main_loop w ls (st\<lparr>processed := processed st @ [l]\<rparr>))
                 = processed st @ l # ps"
              "collected_data (main_loop w ls (st\<lparr>processed := processed st @ [l]\<rparr>))
                 = collected_data st @ List.map_filter (record_of w) ps"
              "count (main_loop w ls (st\<lparr>processed := processed st @ [l]\<rparr>))
                 = count st + length (List.map_filter (record_of w) ps)"
              by auto
            with False Inr True r None show ?thesis
              by (intro exI [of _ "l # ps"])
                (simp add: List.map_filter_simps Let_def record_of_simps)
          next
            case (Some meta)
            let ?st = "st\<lparr>processed := processed st @ [l],
                collected_data := collected_data st @ [meta], count := count st + 1\<rparr>"
            from Cons.IH [of ?st] obtain ps where
              "processed (main_loop w ls ?st) = processed st @ l # ps"
              "collected_data (main_loop w ls ?st)
                 = collected_data st @ meta # List.map_filter (record_of w) ps"
              "count (main_loop w ls ?st)
                 = count st + 1 + length (List.map_filter (record_of w) ps)"
              by auto
            with False Inr True r Some show ?thesis
              by (intro exI [of _ "l # ps"])
                (simp add: List.map_filter_simps Let_def record_of_simps)
          qed
        qed
      qed
    qed
  qed
qed

lemma main_loop_count_le:
  "count st \<le> MAX_ARTICLES \<Longrightarrow> count (main_loop w ls st) \<le> MAX_ARTICLES"
proof (induction ls arbitrary: st)
  case Nil
  then show ?case by simp
next
  case (Cons l ls)
  show ?case
  proof (cases "count st \<ge> MAX_ARTICLES")
    case True
    with Cons.prems show ?thesis by simp
  next
    case False
    then have lt: "count st < MAX_ARTICLES" by simp
    show ?thesis
      using False Cons.prems Cons.IH [of st]
        Cons.IH [of "st\<lparr>processed := processed st @ [l]\<rparr>"] lt
      by (auto simp: Let_def intro!: Cons.IH split: sum.splits option.splits)
  qed
qed

lemma processed_mono: "set (processed st) \<subseteq> set (processed (main_loop w ls st))"
  using main_loop_trace [of w ls st] by auto

lemma main_loop_processes_head:
  "count st < MAX_ARTICLES \<Longrightarrow> urlparse w l = Inr parsed \<Longrightarrow>
   contains ''kompas.com'' (netloc parsed) \<Longrightarrow>
   l \<in> set (processed (main_loop w (l # ls) st))"
proof -
  assume a: "count st < MAX_ARTICLES" "urlparse w l = Inr parsed"
    "contains ''kompas.com'' (netloc parsed)"
  show ?thesis
  proof (cases "extract_article_metadata w l")
    case (Inl e)
    with a show ?thesis by (simp add: Let_def)
  next
    case (Inr r)
    show ?thesis
    proof (cases r)
      case None
      with a Inr processed_mono [of "st\<lparr>processed := processed st @ [l]\<rparr>" w ls]
      show ?thesis by (auto simp: Let_def)
    next
      case (Some meta)
      with a Inr processed_mono [of "st\<lparr>processed := processed st @ [l],
            collected_data := collected_data st @ [meta], count := count st + 1\<rparr>" w ls]
      show ?thesis by (auto simp: Let_def)
    qed
  qed
qed

text \<open>When no exception ended the loop, the records it added are the first ones the
  candidates yield, up to what was left of the budget.\<close>

lemma main_loop_collected:
  "raised (main_loop w ls st) = None \<Longrightarrow>
   collected_data (main_loop w ls st)
     = collected_data st
       @ take (MAX_ARTICLES - count st) (List.map_filter (candidate_record w) ls)"
proof (induction ls arbitrary: st)
  case Nil
  then show ?case by (simp add: List.map_filter_simps)
next
  case (Cons l ls)
  show ?case
  proof (cases "count st \<ge> MAX_ARTICLES")
    case True
    then show ?thesis by simp
  next
    case False
    then have lt: "count st < MAX_ARTICLES" by simp
    show ?thesis
    proof (cases "urlparse w l")
      case (Inl e)
      with False Cons.prems show ?thesis by simp
    next
      case (Inr parsed)
      show ?thesis
      proof (cases "contains ''kompas.com'' (netloc parsed)")
        case no: False
        with False Inr Cons.prems have "raised (main_loop w ls st) = None" by simp
        from Cons.IH [OF this] False Inr no show ?thesis
          by (simp add: candidate_record_simps List.map_filter_simps)
      next
        case True
        show ?thesis
        proof (cases "extract_article_metadata w l")
          case e: (Inl e)
          with False Inr True Cons.prems show ?thesis by (simp add: Let_def)
        next
          case r: (Inr r)
          show ?thesis
          proof (cases r)
            case None
            let ?st = "st\<lparr>processed := processed st @ [l]\<rparr>"
            from False Inr True r None Cons.prems
            have "raised (main_loop w ls ?st) = None" by (simp add: Let_def)
            from Cons.IH [OF this] False Inr True r None show ?thesis
              by (simp add: candidate_record_simps record_of_simps
                  List.map_filter_simps Let_def)
          next
            case (Some meta)
            let ?st = "st\<lparr>processed := processed st @ [l],
                collected_data := collected_data st @ [meta], count := count st + 1\<rparr>"
            from lt have m: "MAX_ARTICLES - count st = Suc (MAX_ARTICLES - (count st + 1))"
              by simp
            from False Inr True r Some Cons.prems
            have "raised (main_loop w ls ?st) = None" by (simp add: Let_def)
            from Cons.IH [OF this] False Inr True r Some show ?thesis
              by (simp add: candidate_record_simps record_of_simps
                  List.map_filter_simps Let_def m)
          qed
        qed
      qed
    qed
  qed
qed

text \<open>An exception that ends the loop is that of \<open>urlparse\<close> or of the extractor on one of
  the links.\<close>

lemma main_loop_raised:
  "raised (main_loop w ls st) = Some e \<Longrightarrow>
   raised st = Some e \<or>
   (\<exists>l \<in> set ls. urlparse w l = Inl e \<or> (in_domain w l \<and> extract_article_metadata w l = Inl e))"
proof (induction ls arbitrary: st)
  case Nil
  then show ?case by simp
next
  case (Cons l ls)
  show ?case
  proof (cases "count st \<ge> MAX_ARTICLES")
    case True
    with Cons.prems show ?thesis by simp
  next
    case False
    show ?thesis
    proof (cases "urlparse w l")
      case (Inl e')
      with False Cons.prems show ?thesis by auto
    next
      case (Inr parsed)
      show ?thesis
      proof (cases "contains ''kompas.com'' (netloc parsed)")
        case no: False
        with False Inr Cons.prems have "raised (main_loop w ls st) = Some e" by simp
        from Cons.IH [OF this] show ?thesis by auto
      next
        case True
        then have d: "in_domain w l" by (simp add: in_domain_def Inr)
        show ?thesis
        proof (cases "extract_article_metadata w l")
          case e: (Inl e')
          with False Inr True Cons.prems d show ?thesis by (auto simp: Let_def)
        next
          case r: (Inr r)
          show ?thesis
          proof (cases r)
            case None
            with False Inr True r Cons.prems
            have "raised (main_loop w ls (st\<lparr>processed := processed st @ [l]\<rparr>)) = Some e"
              by (simp add: Let_def)
            from Cons.IH [OF this] show ?thesis by auto
          next
            case (Some meta)
            with False Inr True r Cons.prems
            have "raised (main_loop w ls
                (st\<lparr>processed := processed st @ [l],
                    collected_data := collected_data st @ [meta],
                    count := count st + 1\<rparr>)) = Some e"
              by (simp add: Let_def)
            from Cons.IH [OF this] show ?thesis by auto
          qed
        qed
      qed
    qed
  qed
qed

lemma main_loop_not_raised:
  "(\<And>l. l \<in> set ls \<Longrightarrow>
      (\<exists>p. urlparse w l = Inr p) \<and> (\<forall>e. extract_article_metadata w l \<noteq> Inl e)) \<Longrightarrow>
   raised (main_loop w ls st) = raised st"
proof (induction ls arbitrary: st)
  case Nil
  then show ?case by simp
next
  case (Cons l ls)
  from Cons.prems [of l] obtain p where p: "urlparse w l = Inr p"
    and x: "\<forall>e. extract_article_metadata w l \<noteq> Inl e" by auto
  from x obtain r where r: "extract_article_metadata w l = Inr r"
    by (cases "extract_article_metadata w l") auto
  have ih: "raised (main_loop w ls st') = raised st'" for st'
    by (rule Cons.IH) (rule Cons.prems, simp)
  show ?case
    by (cases r) (simp_all add: p r ih Let_def)
qed

text \<open>When every link passes the filter, none raises and the budget is not used up before
  the last one, the loop processes them all.\<close>

lemma main_loop_processes_all:
  "list_all (\<lambda>l. in_domain w l \<and> (\<forall>e. extract_article_metadata w l \<noteq> Inl e)) ls \<Longrightarrow>
   count st + length (filter (\<lambda>l. record_of w l \<noteq> None) (butlast ls)) < MAX_ARTICLES \<Longrightarrow>
   processed (main_loop w ls st) = processed st @ ls"
proof (induction ls arbitrary: st)
  case Nil
  then show ?case by simp
next
  case (Cons l ls)
  from Cons.prems have lt: "count st < MAX_ARTICLES" and dom: "in_domain w l"
    and x: "\<forall>e. extract_article_metadata w l \<noteq> Inl e"
    and rest: "list_all (\<lambda>l. in_domain w l \<and> (\<forall>e. extract_article_metadata w l \<noteq> Inl e)) ls"
    by (auto split: if_splits)
  from dom obtain p where p: "urlparse w l = Inr p" "contains ''kompas.com'' (netloc p)"
    by (auto simp: in_domain_def split: sum.splits)
  from x obtain r where r: "extract_article_metadata w l = Inr r"
    by (cases "extract_article_metadata w l") auto
  show ?case
  proof (cases r)
    case None
    let ?st = "st\<lparr>processed := processed st @ [l]\<rparr>"
    from Cons.prems r None
    have "count ?st + length (filter (\<lambda>l. record_of w l \<noteq> None) (butlast ls))
        < MAX_ARTICLES" by (auto simp: record_of_simps split: if_splits)
    from Cons.IH [OF rest this] None r lt p show ?thesis
      by (simp add: Let_def)
  next
    case (Some meta)
    let ?st = "st\<lparr>processed := processed st @ [l],
          collected_data := collected_data st @ [meta], count := count st + 1\<rparr>"
    show ?thesis
    proof (cases "ls = []")
      case True
      with Some r lt p show ?thesis by (simp add: Let_def)
    next
      case False
      with Cons.prems Some r
      have "count ?st + length (filter (\<lambda>l. record_of w l \<noteq> None) (butlast ls))
          < MAX_ARTICLES" by (simp add: record_of_simps)
      from Cons.IH [OF rest this] Some r lt p show ?thesis
        by (simp add: Let_def)
    qed
  qed
qed

lemma length_map_filter:
  "length (List.map_filter f xs) = length (filter (\<lambda>x. f x \<noteq> None) xs)"
  by (induction xs) (auto simp: List.map_filter_simps split: option.splits)

lemma main_trace:
  "count (main w) = length (collected_data (main w)) \<and>
   collected_data (main w) = List.map_filter (record_of w) (processed (main w))"
proof (cases "collect_article_links_from_home w")
  case (Inl e)
  then show ?thesis by (simp add: main_def initial_run_def List.map_filter_simps)
next
  case (Inr links)
  with main_loop_trace [of w links initial_run] show ?thesis
    by (auto simp: main_def initial_run_def)
qed

lemma main_count_le: "count (main w) \<le> MAX_ARTICLES"
proof (cases "collect_article_links_from_home w")
  case (Inl e)
  then show ?thesis by (simp add: main_def initial_run_def)
next
  case (Inr links)
  with main_loop_count_le [of initial_run w links] show ?thesis
    by (simp add: main_def initial_run_def)
qed

section \<open>Where the collected links come from\<close>

text \<open>
  C3, as the program has it. When the home page was fetched, every URL of a list the
  collector returns is the fragment-stripped form of a link that is either the resolved
  first hyperlink of an \<open>article\<close> element, which is added without any test of its
  domain, or a link whose netloc contains \<open>kompas.com\<close>. The driver calls the extractor
  only on links whose netloc contains \<open>kompas.com\<close>.
\<close>

theorem collected_links_origin:
  assumes "http_get w BASE_URL = Page soup"
  shows "(\<forall>links. collect_article_links_from_home w = Inr links \<longrightarrow>
            (\<forall>u \<in> set links.
               \<exists>l. u = strip_fragment l \<and>
                 ((\<exists>art a. art \<in> set (find_all soup (Some ''article'') [])
                     \<and> soup_find art (Some ''a'') [(''href'', AnyValue)] = Some a
                     \<and> urljoin w BASE_URL (subscript a ''href'') = Inr l)
                  \<or> in_domain w l))) \<and>
         (\<forall>l \<in> set (processed (main w)). in_domain w l)"
proof
  show "\<forall>links. collect_article_links_from_home w = Inr links \<longrightarrow>
            (\<forall>u \<in> set links.
               \<exists>l. u = strip_fragment l \<and>
                 ((\<exists>art a. art \<in> set (find_all soup (Some ''article'') [])
                     \<and> soup_find art (Some ''a'') [(''href'', AnyValue)] = Some a
                     \<and> urljoin w BASE_URL (subscript a ''href'') = Inr l)
                  \<or> in_domain w l))"
  proof (intro allI impI ballI)
    fix links u
    assume c: "collect_article_links_from_home w = Inr links" and u: "u \<in> set links"
    from set_collect [OF assms c] obtain cands where
      cands: "candidate_links w soup = Inr cands"
      and s: "set links = strip_fragment ` set cands" by auto
    from s u obtain l where l: "l \<in> set cands" and ul: "u = strip_fragment l" by auto
    from candidate_links_origin [OF cands l] ul show "\<exists>l. u = strip_fragment l \<and>
                 ((\<exists>art a. art \<in> set (find_all soup (Some ''article'') [])
                     \<and> soup_find art (Some ''a'') [(''href'', AnyValue)] = Some a
                     \<and> urljoin w BASE_URL (subscript a ''href'') = Inr l)
                  \<or> in_domain w l)" by blast
  qed
  show "\<forall>l \<in> set (processed (main w)). in_domain w l"
  proof (cases "collect_article_links_from_home w")
    case (Inl e)
    then show ?thesis by (simp add: main_def initial_run_def)
  next
    case (Inr links)
    with processed_main_loop [of _ w links initial_run] show ?thesis
      by (auto simp: main_def initial_run_def)
  qed
qed

lemma py_urlparse_world:
  "py_urlparse valid u [] = Inr r \<Longrightarrow>
   urlparse (py_world valid web slot) u = Inr \<lparr> netloc = p_netloc r, path = p_path r \<rparr>"
  by simp

lemma external_parts:
  "py_urlparse any_valid ''https://evil.example/x'' []
     = Inr \<lparr> p_scheme = ''https'', p_netloc = ''evil.example'', p_path = ''/x'',
             p_params = [], p_query = [], p_fragment = [] \<rparr>"
  "py_urljoin any_valid BASE_URL ''https://evil.example/x'' = Inr ''https://evil.example/x''"
  by code_simp+

lemma external_contains:
  "\<not> contains ''kompas.com'' ''evil.example''"
  "strip_fragment ''https://evil.example/x'' = ''https://evil.example/x''"
  by code_simp+

lemma urlparse_external:
  "urlparse external_world ''https://evil.example/x''
     = Inr \<lparr> netloc = ''evil.example'', path = ''/x'' \<rparr>"
  by (simp add: external_world_def external_parts)

lemma collect_external:
  "collect_article_links_from_home external_world = Inr [''https://evil.example/x'']"
proof -
  have h: "http_get external_world BASE_URL = Page home_external"
    by (simp add: external_world_def)
  have fart: "find_all home_external (Some ''article'') []
      = [Tag ''article'' [] [anchor ''https://evil.example/x'' ''Elsewhere'']]"
    and fa: "find_all home_external (Some ''a'') [(''href'', AnyValue)]
      = [anchor ''https://evil.example/x'' ''Elsewhere'']"
    and sf: "soup_find (Tag ''article'' [] [anchor ''https://evil.example/x'' ''Elsewhere''])
        (Some ''a'') [(''href'', AnyValue)]
      = Some (anchor ''https://evil.example/x'' ''Elsewhere'')"
    by code_simp+
  have uj: "urljoin external_world BASE_URL ''https://evil.example/x''
      = Inr ''https://evil.example/x''"
    by (simp add: external_world_def external_parts)
  have "candidate_links external_world home_external = Inr [''https://evil.example/x'']"
    by (simp add: candidate_links_def structural_links_def fart fa structural_step_def sf
        heuristic_step_def resolve_href_def uj urlparse_external external_contains
        set_add_def Let_def)
  then show ?thesis
    by (simp add: collect_Page [OF h] external_contains fromkeys_distinct_id)
qed

lemma not_in_domain_external: "\<not> in_domain external_world ''https://evil.example/x''"
  by (simp add: in_domain_def urlparse_external external_contains)

text \<open>
  A home page whose only link sits in an \<open>article\<close> element and points to
  \<open>evil.example\<close>: the collector returns it.
\<close>

theorem structural_link_out_of_domain_counterexample:
  "http_get external_world BASE_URL = Page home_external \<and>
   collect_article_links_from_home external_world = Inr [''https://evil.example/x''] \<and>
   urlparse external_world ''https://evil.example/x''
     = Inr \<lparr> netloc = ''evil.example'', path = ''/x'' \<rparr> \<and>
   \<not> contains ''kompas.com'' ''evil.example''"
proof -
  have "http_get external_world BASE_URL = Page home_external"
    by (simp add: external_world_def)
  then show ?thesis
    by (simp add: collect_external urlparse_external external_contains)
qed

theorem collected_links_origin_witness:
  "collect_article_links_from_home external_world = Inr [''https://evil.example/x''] \<and>
   (\<exists>l. ''https://evil.example/x'' = strip_fragment l \<and>
      ((\<exists>art a. art \<in> set (find_all home_external (Some ''article'') [])
          \<and> soup_find art (Some ''a'') [(''href'', AnyValue)] = Some a
          \<and> urljoin external_world BASE_URL (subscript a ''href'') = Inr l)
       \<or> in_domain external_world l)) \<and>
   ''https://evil.example/x'' \<notin> set (processed (main external_world))"
proof -
  have h: "http_get external_world BASE_URL = Page home_external"
    by (simp add: external_world_def)
  from collected_links_origin [OF h]
  have a: "\<forall>links. collect_article_links_from_home external_world = Inr links \<longrightarrow>
            (\<forall>u \<in> set links.
               \<exists>l. u = strip_fragment l \<and>
                 ((\<exists>art a. art \<in> set (find_all home_external (Some ''article'') [])
                     \<and> soup_find art (Some ''a'') [(''href'', AnyValue)] = Some a
                     \<and> urljoin external_world BASE_URL (subscript a ''href'') = Inr l)
                  \<or> in_domain external_world l))"
    by (rule conjunct1)
  from collected_links_origin [OF h]
  have b: "\<forall>l \<in> set (processed (main external_world)). in_domain external_world l"
    by (rule conjunct2)
  from b not_in_domain_external
  have c: "''https://evil.example/x'' \<notin> set (processed (main external_world))" by blast
  from a [rule_format, OF collect_external]
  have "\<forall>u \<in> set [''https://evil.example/x''].
               \<exists>l. u = strip_fragment l \<and>
                 ((\<exists>art a. art \<in> set (find_all home_external (Some ''article'') [])
                     \<and> soup_find art (Some ''a'') [(''href'', AnyValue)] = Some a
                     \<and> urljoin external_world BASE_URL (subscript a ''href'') = Inr l)
                  \<or> in_domain external_world l)"
    by blast
  then have d: "\<exists>l. ''https://evil.example/x'' = strip_fragment l \<and>
      ((\<exists>art a. art \<in> set (find_all home_external (Some ''article'') [])
          \<and> soup_find art (Some ''a'') [(''href'', AnyValue)] = Some a
          \<and> urljoin external_world BASE_URL (subscript a ''href'') = Inr l)
       \<or> in_domain external_world l)"
    by simp
  from collect_external d c show ?thesis by (intro conjI)
qed

section \<open>The domain test is a substring test\<close>

lemma lookalike_parts:
  "py_urlparse any_valid ''https://notkompas.com/read/1'' []
     = Inr \<lparr> p_scheme = ''https'', p_netloc = ''notkompas.com'', p_path = ''/read/1'',
             p_params = [], p_query = [], p_fragment = [] \<rparr>"
  "py_urlparse any_valid ''https://kompas.com.example.net/read/2'' []
     = Inr \<lparr> p_scheme = ''https'', p_netloc = ''kompas.com.example.net'', p_path = ''/read/2'',
             p_params = [], p_query = [], p_fragment = [] \<rparr>"
  by code_simp+

lemma urlparse_lookalike:
  "urlparse lookalike_world ''https://notkompas.com/read/1''
     = Inr \<lparr> netloc = ''notkompas.com'', path = ''/read/1'' \<rparr>"
  "urlparse lookalike_world ''https://kompas.com.example.net/read/2''
     = Inr \<lparr> netloc = ''kompas.com.example.net'', path = ''/read/2'' \<rparr>"
  by (simp_all add: lookalike_world_def lookalike_parts)

lemma lookalike_contains:
  "contains ''kompas.com'' ''notkompas.com''"
  "contains ''kompas.com'' ''kompas.com.example.net''"
  "list_ex (\<lambda>m. contains m ''/read/1'') section_markers"
  "list_ex (\<lambda>m. contains m ''/read/2'') section_markers"
  by code_simp+

lemma resolve_lookalike:
  "resolve_href lookalike_world ''https://notkompas.com/read/1''
     = Inr (''https://notkompas.com/read/1'', \<lparr> netloc = ''notkompas.com'', path = ''/read/1'' \<rparr>)"
  "resolve_href lookalike_world ''https://kompas.com.example.net/read/2''
     = Inr (''https://kompas.com.example.net/read/2'',
            \<lparr> netloc = ''kompas.com.example.net'', path = ''/read/2'' \<rparr>)"
  by (simp_all add: resolve_href_def urlparse_lookalike)

lemma collect_lookalike:
  "collect_article_links_from_home lookalike_world
     = Inr [''https://notkompas.com/read/1'', ''https://kompas.com.example.net/read/2'']"
proof -
  have h: "http_get lookalike_world BASE_URL = Page home_lookalike"
    by (simp add: lookalike_world_def)
  have fart: "find_all home_lookalike (Some ''article'') [] = []"
    and fa: "find_all home_lookalike (Some ''a'') [(''href'', AnyValue)]
      = [anchor ''https://notkompas.com/read/1'' ''One'',
         anchor ''https://kompas.com.example.net/read/2'' ''Two'']"
    by code_simp+
  have sfr:
    "strip_fragment ''https://notkompas.com/read/1'' = ''https://notkompas.com/read/1''"
    "strip_fragment ''https://kompas.com.example.net/read/2''
       = ''https://kompas.com.example.net/read/2''"
    by code_simp+
  have "candidate_links lookalike_world home_lookalike
      = Inr [''https://notkompas.com/read/1'', ''https://kompas.com.example.net/read/2'']"
    by (simp add: candidate_links_def structural_links_def fart fa heuristic_step_def
        resolve_lookalike lookalike_contains set_add_def Let_def)
  moreover have "set_slot lookalike_world = (\<lambda>u. 0)"
    by (simp add: lookalike_world_def)
  ultimately show ?thesis
    by (simp add: collect_Page [OF h] set_iter_const sfr fromkeys_distinct_id)
qed

lemma processed_lookalike:
  "processed (main lookalike_world)
     = [''https://notkompas.com/read/1'', ''https://kompas.com.example.net/read/2'']"
proof -
  have a: "extract_article_metadata lookalike_world ''https://notkompas.com/read/1'' = Inr None"
    "extract_article_metadata lookalike_world ''https://kompas.com.example.net/read/2''
       = Inr None"
    by (simp_all add: extract_article_metadata_def get_soup_def lookalike_world_def
        web_of_def BASE_URL_def)
  show ?thesis
    by (simp add: main_def initial_run_def collect_lookalike a urlparse_lookalike
        lookalike_contains MAX_ARTICLES_def)
qed

text \<open>
  C9. The second loop of the collector and the filter of \<open>main\<close> accept a link as soon as
  the netloc of its (resolved) URL contains the string \<open>kompas.com\<close>: such a link, when
  it has a section marker in its path or an anchor text longer than 30, is added to the
  set, and the driver calls the extractor on it. So the links to \<open>notkompas.com\<close> and
  \<open>kompas.com.example.net\<close> are collected and processed.
\<close>

theorem substring_domain_test:
  "(\<forall>href' parsed.
      subscript a ''href'' \<noteq> [] \<and>
      resolve_href w (subscript a ''href'') = Inr (href', parsed) \<and>
      contains ''kompas.com'' (netloc parsed) \<and>
      (list_ex (\<lambda>m. contains m (path parsed)) section_markers
        \<or> 30 < length (get_text_strip a))
      \<longrightarrow> heuristic_step w a links = Inr (set_add href' links)
          \<and> href' \<in> set (set_add href' links)) \<and>
   (\<forall>parsed.
      count st < MAX_ARTICLES \<and> urlparse w l = Inr parsed
      \<and> contains ''kompas.com'' (netloc parsed)
      \<longrightarrow> l \<in> set (processed (main_loop w (l # ls) st))) \<and>
   urlparse lookalike_world ''https://notkompas.com/read/1''
     = Inr \<lparr> netloc = ''notkompas.com'', path = ''/read/1'' \<rparr> \<and>
   urlparse lookalike_world ''https://kompas.com.example.net/read/2''
     = Inr \<lparr> netloc = ''kompas.com.example.net'', path = ''/read/2'' \<rparr> \<and>
   collect_article_links_from_home lookalike_world
     = Inr [''https://notkompas.com/read/1'', ''https://kompas.com.example.net/read/2''] \<and>
   processed (main lookalike_world)
     = [''https://notkompas.com/read/1'', ''https://kompas.com.example.net/read/2'']"
proof -
  have a: "\<forall>href' parsed.
      subscript a ''href'' \<noteq> [] \<and>
      resolve_href w (subscript a ''href'') = Inr (href', parsed) \<and>
      contains ''kompas.com'' (netloc parsed) \<and>
      (list_ex (\<lambda>m. contains m (path parsed)) section_markers
        \<or> 30 < length (get_text_strip a))
      \<longrightarrow> heuristic_step w a links = Inr (set_add href' links)
          \<and> href' \<in> set (set_add href' links)"
    using heuristic_step_accepts [of a w _ _ links] by (auto simp: set_set_add)
  have b: "\<forall>parsed.
      count st < MAX_ARTICLES \<and> urlparse w l = Inr parsed
      \<and> contains ''kompas.com'' (netloc parsed)
      \<longrightarrow> l \<in> set (processed (main_loop w (l # ls) st))"
    using main_loop_processes_head [of st w l _ ls] by blast
  from a b urlparse_lookalike collect_lookalike processed_lookalike show ?thesis
    by (intro conjI)
qed

theorem substring_domain_test_witness:
  "heuristic_step lookalike_world (anchor ''https://notkompas.com/read/1'' ''One'') []
     = Inr [''https://notkompas.com/read/1''] \<and>
   ''https://kompas.com.example.net/read/2''
     \<in> set (processed (main_loop lookalike_world [''https://kompas.com.example.net/read/2'']
          initial_run))"
proof -
  let ?a = "anchor ''https://notkompas.com/read/1'' ''One''"
  let ?p = "\<lparr> netloc = ''notkompas.com'', path = ''/read/1'' \<rparr>"
  let ?q = "\<lparr> netloc = ''kompas.com.example.net'', path = ''/read/2'' \<rparr>"
  have h1: "subscript ?a ''href'' \<noteq> []" by simp
  have h2: "resolve_href lookalike_world (subscript ?a ''href'')
      = Inr (''https://notkompas.com/read/1'', ?p)"
    by (simp add: resolve_lookalike)
  have h3: "contains ''kompas.com'' (netloc ?p)"
    "list_ex (\<lambda>m. contains m (path ?p)) section_markers"
    by (simp_all add: lookalike_contains)
  have h4: "count initial_run < MAX_ARTICLES"
    by (simp add: MAX_ARTICLES_def initial_run_def)
  have h5: "urlparse lookalike_world ''https://kompas.com.example.net/read/2'' = Inr ?q"
    "contains ''kompas.com'' (netloc ?q)"
    by (simp_all add: urlparse_lookalike lookalike_contains)
  have "heuristic_step lookalike_world ?a []
      = Inr (set_add ''https://notkompas.com/read/1'' [])"
    using substring_domain_test [of ?a lookalike_world "[]" initial_run
      "''https://kompas.com.example.net/read/2''" "[]"] h1 h2 h3
    by blast
  moreover have "''https://kompas.com.example.net/read/2''
     \<in> set (processed (main_loop lookalike_world [''https://kompas.com.example.net/read/2'']
          initial_run))"
    using substring_domain_test [of ?a lookalike_world "[]" initial_run
      "''https://kompas.com.example.net/read/2''" "[]"] h4 h5
    by blast
  ultimately show ?thesis by (simp add: set_add_def)
qed

section \<open>The order of the collected links\<close>

lemma two_parts:
  "py_urlparse any_valid ''/read/a'' []
     = Inr \<lparr> p_scheme = [], p_netloc = [], p_path = ''/read/a'',
             p_params = [], p_query = [], p_fragment = [] \<rparr>"
  "py_urlparse any_valid ''/read/b#top'' []
     = Inr \<lparr> p_scheme = [], p_netloc = [], p_path = ''/read/b'',
             p_params = [], p_query = [], p_fragment = ''top'' \<rparr>"
  "py_urljoin any_valid BASE_URL ''/read/a'' = Inr ''https://www.kompas.com/read/a''"
  "py_urljoin any_valid BASE_URL ''/read/b#top'' = Inr ''https://www.kompas.com/read/b#top''"
  "py_urlparse any_valid ''https://www.kompas.com/read/a'' []
     = Inr \<lparr> p_scheme = ''https'', p_netloc = ''www.kompas.com'', p_path = ''/read/a'',
             p_params = [], p_query = [], p_fragment = [] \<rparr>"
  "py_urlparse any_valid ''https://www.kompas.com/read/b#top'' []
     = Inr \<lparr> p_scheme = ''https'', p_netloc = ''www.kompas.com'', p_path = ''/read/b'',
             p_params = [], p_query = [], p_fragment = ''top'' \<rparr>"
  by code_simp+

lemma two_contains:
  "contains ''kompas.com'' ''www.kompas.com''"
  "list_ex (\<lambda>m. contains m ''/read/a'') section_markers"
  "list_ex (\<lambda>m. contains m ''/read/b'') section_markers"
  "strip_fragment ''https://www.kompas.com/read/a'' = ''https://www.kompas.com/read/a''"
  "strip_fragment ''https://www.kompas.com/read/b#top'' = ''https://www.kompas.com/read/b''"
  by code_simp+

lemma resolve_two:
  "resolve_href (two_world slot) ''/read/a''
     = Inr (''https://www.kompas.com/read/a'',
            \<lparr> netloc = ''www.kompas.com'', path = ''/read/a'' \<rparr>)"
  "resolve_href (two_world slot) ''/read/b#top''
     = Inr (''https://www.kompas.com/read/b#top'',
            \<lparr> netloc = ''www.kompas.com'', path = ''/read/b'' \<rparr>)"
  by (simp_all add: resolve_href_def two_world_def two_parts)

lemma candidate_links_two:
  "candidate_links (two_world slot) home_two
     = Inr [''https://www.kompas.com/read/a'', ''https://www.kompas.com/read/b#top'']"
proof -
  have fart: "find_all home_two (Some ''article'') [] = []"
    and fa: "find_all home_two (Some ''a'') [(''href'', AnyValue)]
      = [anchor ''/read/a'' ''A'', anchor ''/read/b#top'' ''B'']"
    by code_simp+
  show ?thesis
    by (simp add: candidate_links_def structural_links_def fart fa heuristic_step_def
        resolve_two two_contains set_add_def Let_def)
qed

text \<open>
  C1 asks that the collector return each distinct fragment-stripped URL once, at the
  position of its first occurrence in the document. The program returns each of them
  once (\<open>distinct_collect\<close>, \<open>set_collect\<close>), in the order in which the set \<open>links\<close> is
  iterated, which \<open>dict.fromkeys\<close> then keeps. At the home page with the links
  \<open>/read/a\<close> and \<open>/read/b#top\<close>, in this order: when the set iterates in insertion
  order the result is in document order; when the slot of the second link is below the
  slot of the first, the result is reversed.
\<close>

theorem first_seen_order_lost:
  "collect_article_links_from_home (two_world (\<lambda>u. 0))
     = Inr [''https://www.kompas.com/read/a'', ''https://www.kompas.com/read/b''] \<and>
   collect_article_links_from_home
       (two_world (\<lambda>u. if u = ''https://www.kompas.com/read/a'' then 1 else 0))
     = Inr [''https://www.kompas.com/read/b'', ''https://www.kompas.com/read/a'']"
proof -
  have h: "http_get (two_world slot) BASE_URL = Page home_two" for slot
    by (simp add: two_world_def)
  have sl: "set_slot (two_world slot) = slot" for slot
    by (simp add: two_world_def)
  show ?thesis
    by (simp add: collect_Page [OF h] candidate_links_two set_iter_def sl
        two_contains fromkeys_def)
qed

section \<open>A home page of 51 links\<close>

lemma find_all_anchor_page:
  "find_all (soup_of (map (\<lambda>u. anchor u s) us)) (Some ''a'') [(''href'', AnyValue)]
     = map (\<lambda>u. anchor u s) us"
  "find_all (soup_of (map (\<lambda>u. anchor u s) us)) (Some ''article'') [] = []"
  by (induction us) (simp_all add: find_all_def soup_of_def anchor_def)

lemma fold_set_add_distinct: "distinct (acc @ us) \<Longrightarrow> fold set_add us acc = acc @ us"
  by (induction us arbitrary: acc) (auto simp: set_add_def)

lemma heuristic_fold_anchor_page:
  "list_all (\<lambda>u. u \<noteq> [] \<and>
      (\<exists>p. urlparse w u = Inr p \<and> netloc p \<noteq> [] \<and> contains ''kompas.com'' (netloc p))) us \<Longrightarrow>
   30 < length (strip s) \<Longrightarrow>
   for_each (heuristic_step w) (map (\<lambda>u. anchor u s) us) acc = Inr (fold set_add us acc)"
proof (induction us arbitrary: acc)
  case Nil
  then show ?case by simp
next
  case (Cons u us)
  then obtain p where u: "u \<noteq> []" and p: "urlparse w u = Inr p" "netloc p \<noteq> []"
    "contains ''kompas.com'' (netloc p)" by auto
  then have r: "resolve_href w u = Inr (u, p)" by (simp add: resolve_href_def)
  with u p Cons.prems have "heuristic_step w (anchor u s) acc = Inr (set_add u acc)"
    using heuristic_step_accepts [of "anchor u s" w u p acc]
    by (simp add: get_text_strip_anchor)
  with Cons show ?case by simp
qed

lemma strip_fragment_id: "CHR ''#'' \<notin> set u \<Longrightarrow> strip_fragment u = u"
  by (auto simp: strip_fragment_def takeWhile_eq_all_conv)

lemma map_strip_fragment_id:
  "list_all (\<lambda>u. CHR ''#'' \<notin> set u) us \<Longrightarrow> map strip_fragment us = us"
  by (induction us) (simp_all add: strip_fragment_id)

lemma netloc_kompas_split:
  "\<exists>r. py_urlsplit any_valid (''https://www.kompas.com/'' @ s) [] = Inr r
      \<and> p_netloc r = ''www.kompas.com''"
  by (simp add: py_urlsplit_def Let_def c0_control_or_space_def any_valid_def
      unsafe_url_byte_def ascii_alpha_def scheme_chars_def netloc_delim_def is_ascii_def)

lemma netloc_kompas:
  "\<exists>r. py_urlparse any_valid (''https://www.kompas.com/'' @ s) [] = Inr r
      \<and> p_netloc r = ''www.kompas.com''"
proof -
  from netloc_kompas_split [of s] obtain r where
    "py_urlsplit any_valid (''https://www.kompas.com/'' @ s) [] = Inr r"
    "p_netloc r = ''www.kompas.com''" by auto
  then show ?thesis by (simp add: py_urlparse_def)
qed

lemma contains_www: "contains ''kompas.com'' ''www.kompas.com''"
  by code_simp

lemma many_url_urlparse:
  "\<exists>p. urlparse (py_world any_valid web slot) (many_url n) = Inr p
      \<and> netloc p = ''www.kompas.com''"
proof -
  have m: "many_url n = ''https://www.kompas.com/''
      @ (''read/'' @ [char_of (48 + n div 10), char_of (48 + n mod 10)])"
    by (simp add: many_url_def)
  from netloc_kompas [of "''read/'' @ [char_of (48 + n div 10), char_of (48 + n mod 10)]"]
  obtain r where "py_urlparse any_valid (many_url n) [] = Inr r"
    "p_netloc r = ''www.kompas.com''"
    unfolding m by auto
  then show ?thesis by simp
qed

lemma many_in_domain: "l \<in> set many_links \<Longrightarrow> in_domain (py_world any_valid web slot) l"
proof -
  assume "l \<in> set many_links"
  then obtain n where l: "l = many_url n" by (auto simp: many_links_def)
  from many_url_urlparse [of web slot n] show ?thesis
    unfolding l by (auto simp: in_domain_def contains_www)
qed

lemma many_links_ok:
  "list_all (\<lambda>u. u \<noteq> [] \<and>
      (\<exists>p. urlparse (py_world any_valid web slot) u = Inr p \<and> netloc p \<noteq> []
          \<and> contains ''kompas.com'' (netloc p))) many_links"
proof -
  have "u \<noteq> [] \<and>
      (\<exists>p. urlparse (py_world any_valid web slot) u = Inr p \<and> netloc p \<noteq> []
          \<and> contains ''kompas.com'' (netloc p))" if "u \<in> set many_links" for u
  proof -
    from that obtain n where u: "u = many_url n" by (auto simp: many_links_def)
    have "many_url n \<noteq> []" by (simp add: many_url_def)
    moreover from many_url_urlparse [of web slot n] obtain p where
      "urlparse (py_world any_valid web slot) (many_url n) = Inr p"
      "netloc p = ''www.kompas.com''" by auto
    ultimately show ?thesis unfolding u by (auto simp: contains_www)
  qed
  then show ?thesis unfolding list_all_iff by blast
qed

lemma many_distinct: "distinct many_links"
  by code_simp

lemma many_no_fragment: "list_all (\<lambda>u. CHR ''#'' \<notin> set u) many_links"
  by code_simp

lemma many_not_base: "BASE_URL \<notin> set many_links"
  by code_simp

lemma many_length: "length many_links = 51"
  by code_simp

lemma many_head: "many_links = many_url 0 # tl many_links"
  by (simp add: many_links_def upt_conv_Cons)

lemma headline_long: "30 < length (strip headline)"
  by code_simp

lemma collect_many:
  assumes "web BASE_URL = Page home_many"
  shows "collect_article_links_from_home (py_world any_valid web (\<lambda>u. 0)) = Inr many_links"
proof -
  let ?w = "py_world any_valid web (\<lambda>u. 0)"
  have h: "http_get ?w BASE_URL = Page home_many" using assms by simp
  have "candidate_links ?w home_many = Inr many_links"
    by (simp add: candidate_links_def structural_links_def home_many_def find_all_anchor_page
        heuristic_fold_anchor_page [OF many_links_ok headline_long]
        fold_set_add_distinct many_distinct)
  then show ?thesis
    by (simp add: collect_Page [OF h] set_iter_const map_strip_fragment_id many_no_fragment
        fromkeys_distinct_id many_distinct)
qed

lemma collect_dead: "collect_article_links_from_home dead_world = Inr many_links"
  unfolding dead_world_def by (rule collect_many) simp

lemma collect_flaky: "collect_article_links_from_home flaky_world = Inr many_links"
  unfolding flaky_world_def by (rule collect_many) simp

lemma collect_crash: "collect_article_links_from_home crash_world = Inr many_links"
  unfolding crash_world_def by (rule collect_many) simp

lemma in_domain_dead: "l \<in> set many_links \<Longrightarrow> in_domain dead_world l"
  unfolding dead_world_def by (rule many_in_domain)

lemma in_domain_flaky: "l \<in> set many_links \<Longrightarrow> in_domain flaky_world l"
  unfolding flaky_world_def by (rule many_in_domain)

lemma extract_dead: "l \<in> set many_links \<Longrightarrow> extract_article_metadata dead_world l = Inr None"
  using many_not_base by (auto simp: dead_world_def web_of_def intro!: extract_failed)

lemma extract_blank_page:
  "http_get w l = Page (soup_of []) \<Longrightarrow>
   \<exists>r. extract_article_metadata w l = Inr (Some r)"
  by (simp add: extract_Page image_chain meta_property_def find_tag_def)

lemma extract_flaky:
  "l \<in> set many_links \<Longrightarrow>
   (l = many_url 0 \<longrightarrow> extract_article_metadata flaky_world l = Inr None) \<and>
   (l \<noteq> many_url 0 \<longrightarrow> (\<exists>r. extract_article_metadata flaky_world l = Inr (Some r)))"
proof -
  assume l: "l \<in> set many_links"
  with many_not_base have nb: "l \<noteq> BASE_URL" by auto
  show ?thesis
  proof (cases "l = many_url 0")
    case True
    with nb have "http_get flaky_world l = RequestException" by (simp add: flaky_world_def)
    with True show ?thesis by (simp add: extract_failed)
  next
    case False
    with nb have "http_get flaky_world l = Page (soup_of [])" by (simp add: flaky_world_def)
    from extract_blank_page [OF this] False show ?thesis by simp
  qed
qed

lemma record_of_flaky:
  "l \<in> set many_links \<Longrightarrow> (record_of flaky_world l \<noteq> None) = (l \<noteq> many_url 0)"
  using extract_flaky [of l] by (auto simp: record_of_def)

lemma candidate_record_flaky:
  "l \<in> set many_links \<Longrightarrow> (candidate_record flaky_world l \<noteq> None) = (l \<noteq> many_url 0)"
  using record_of_flaky [of l] in_domain_flaky [of l] by (simp add: candidate_record_def)

lemma flaky_counts:
  "length (filter (\<lambda>l. l \<noteq> many_url 0) many_links) = 50"
  "length (filter (\<lambda>l. l \<noteq> many_url 0) (butlast many_links)) = 49"
  by code_simp+

lemma good_flaky:
  "filter (\<lambda>l. candidate_record flaky_world l \<noteq> None) many_links
     = filter (\<lambda>l. l \<noteq> many_url 0) many_links"
  by (rule filter_cong) (simp_all add: candidate_record_flaky del: not_None_eq)

lemma flaky_no_raise:
  "l \<in> set many_links \<Longrightarrow>
   (\<exists>p. urlparse flaky_world l = Inr p) \<and> (\<forall>e. extract_article_metadata flaky_world l \<noteq> Inl e)"
proof -
  assume l: "l \<in> set many_links"
  from in_domain_flaky [OF l] have "\<exists>p. urlparse flaky_world l = Inr p"
    by (auto simp: in_domain_def split: sum.splits)
  moreover from extract_flaky [OF l]
  have "\<forall>e. extract_article_metadata flaky_world l \<noteq> Inl e"
    by (cases "l = many_url 0") auto
  ultimately show ?thesis by simp
qed

lemma processed_dead: "processed (main dead_world) = many_links"
proof -
  have a: "list_all (\<lambda>l. in_domain dead_world l
      \<and> (\<forall>e. extract_article_metadata dead_world l \<noteq> Inl e)) many_links"
    by (auto simp: list_all_iff in_domain_dead extract_dead)
  have "filter (\<lambda>l. record_of dead_world l \<noteq> None) (butlast many_links) = []"
    by (auto simp: filter_empty_conv record_of_def extract_dead dest!: in_set_butlastD)
  then have b: "count initial_run
      + length (filter (\<lambda>l. record_of dead_world l \<noteq> None) (butlast many_links))
      < MAX_ARTICLES"
    by (simp add: initial_run_def MAX_ARTICLES_def del: not_None_eq)
  from main_loop_processes_all [OF a b] show ?thesis
    by (simp add: main_def collect_dead initial_run_def)
qed

lemma raised_dead: "raised (main dead_world) = None"
proof -
  have "raised (main_loop dead_world many_links initial_run) = raised initial_run"
  proof (rule main_loop_not_raised)
    fix l assume l: "l \<in> set many_links"
    from in_domain_dead [OF l] have "\<exists>p. urlparse dead_world l = Inr p"
      by (auto simp: in_domain_def split: sum.splits)
    with extract_dead [OF l]
    show "(\<exists>p. urlparse dead_world l = Inr p)
        \<and> (\<forall>e. extract_article_metadata dead_world l \<noteq> Inl e)" by simp
  qed
  then show ?thesis by (simp add: main_def collect_dead initial_run_def)
qed

lemma collected_dead: "collected_data (main dead_world) = []"
proof -
  have "List.map_filter (record_of dead_world) many_links = []"
    using length_map_filter [of "record_of dead_world" many_links]
    by (auto simp: filter_empty_conv record_of_def extract_dead simp del: not_None_eq)
  with main_trace [of dead_world] show ?thesis by (simp add: processed_dead)
qed

lemma processed_flaky: "processed (main flaky_world) = many_links"
proof -
  have a: "list_all (\<lambda>l. in_domain flaky_world l
      \<and> (\<forall>e. extract_article_metadata flaky_world l \<noteq> Inl e)) many_links"
    using flaky_no_raise by (auto simp: list_all_iff in_domain_flaky)
  have "filter (\<lambda>l. record_of flaky_world l \<noteq> None) (butlast many_links)
      = filter (\<lambda>l. l \<noteq> many_url 0) (butlast many_links)"
  proof (rule filter_cong)
    fix l assume "l \<in> set (butlast many_links)"
    then have "l \<in> set many_links" by (rule in_set_butlastD)
    then show "(record_of flaky_world l \<noteq> None) = (l \<noteq> many_url 0)"
      by (rule record_of_flaky)
  qed simp
  then have b: "count initial_run
      + length (filter (\<lambda>l. record_of flaky_world l \<noteq> None) (butlast many_links))
      < MAX_ARTICLES"
    by (simp add: initial_run_def MAX_ARTICLES_def flaky_counts del: not_None_eq)
  from main_loop_processes_all [OF a b] show ?thesis
    by (simp add: main_def collect_flaky initial_run_def)
qed

lemma raised_flaky: "raised (main flaky_world) = None"
proof -
  have "raised (main_loop flaky_world many_links initial_run) = raised initial_run"
    by (rule main_loop_not_raised) (rule flaky_no_raise)
  then show ?thesis by (simp add: main_def collect_flaky initial_run_def)
qed

lemma collected_flaky: "length (collected_data (main flaky_world)) = 50"
proof -
  have "filter (\<lambda>l. record_of flaky_world l \<noteq> None) many_links
      = filter (\<lambda>l. l \<noteq> many_url 0) many_links"
    by (rule filter_cong) (simp_all add: record_of_flaky del: not_None_eq)
  then have "length (List.map_filter (record_of flaky_world) many_links) = 50"
    by (simp add: length_map_filter flaky_counts del: not_None_eq)
  with main_trace [of flaky_world] show ?thesis by (simp add: processed_flaky)
qed

lemma main_crash:
  "main crash_world
     = \<lparr>collected_data = [], count = 0, processed = [many_url 0],
        raised = Some ParserRejectedMarkup\<rparr>"
proof -
  have "many_url 0 \<in> set many_links" by (subst many_head) simp
  with many_not_base have nb: "many_url 0 \<noteq> BASE_URL" by auto
  then have x: "extract_article_metadata crash_world (many_url 0) = Inl ParserRejectedMarkup"
    by (intro extract_raised) (simp add: crash_world_def)
  from many_url_urlparse [of "\<lambda>u. if u = BASE_URL then Page home_many
      else Raised ParserRejectedMarkup" "\<lambda>u. 0" 0]
  obtain p where p: "urlparse crash_world (many_url 0) = Inr p"
    "netloc p = ''www.kompas.com''"
    by (auto simp: crash_world_def)
  have "main_loop crash_world (many_url 0 # tl many_links) initial_run
      = \<lparr>collected_data = [], count = 0, processed = [many_url 0],
        raised = Some ParserRejectedMarkup\<rparr>"
    by (simp add: p x contains_www initial_run_def MAX_ARTICLES_def Let_def)
  then show ?thesis
    by (simp add: main_def collect_crash many_head [symmetric])
qed

section \<open>The bound on the number of articles\<close>

text \<open>
  C7, as the program has it, for \<open>main\<close> up to the export. \<open>main\<close> never collects more than
  \<open>MAX_ARTICLES\<close> records. In a run that no exception ends, the records are those of
  the candidates that pass the domain filter and for which the extractor returns a
  record, in the order of the candidates, up to \<open>MAX_ARTICLES\<close> of them: exactly
  \<open>MAX_ARTICLES\<close> when at least that many candidates succeed, all of them otherwise. The
  number of candidates the extractor is called on is not bounded by \<open>MAX_ARTICLES\<close>. An
  exception that ends the run is that of the collector, or that of \<open>urlparse\<close> or of
  the extractor on a candidate; when the collector returns and neither raises on any
  candidate, no exception ends the run.
\<close>

theorem driver_bound:
  "length (collected_data (main w)) \<le> MAX_ARTICLES \<and>
   (raised (main w) = None \<longrightarrow>
      (\<exists>links. collect_article_links_from_home w = Inr links \<and>
         collected_data (main w)
           = take MAX_ARTICLES (List.map_filter (candidate_record w) links) \<and>
         length (collected_data (main w))
           = min MAX_ARTICLES (length (filter (\<lambda>l. candidate_record w l \<noteq> None) links)))) \<and>
   (\<forall>e. raised (main w) = Some e \<longrightarrow>
      collect_article_links_from_home w = Inl e \<or>
      (\<exists>links l. collect_article_links_from_home w = Inr links \<and> l \<in> set links \<and>
         (urlparse w l = Inl e \<or> (in_domain w l \<and> extract_article_metadata w l = Inl e)))) \<and>
   (\<forall>links. collect_article_links_from_home w = Inr links \<and>
       (\<forall>l \<in> set links.
          (\<exists>p. urlparse w l = Inr p) \<and> (\<forall>e. extract_article_metadata w l \<noteq> Inl e))
      \<longrightarrow> raised (main w) = None)"
proof (intro conjI)
  from main_trace [of w] main_count_le [of w]
  show "length (collected_data (main w)) \<le> MAX_ARTICLES" by simp
  show "raised (main w) = None \<longrightarrow>
      (\<exists>links. collect_article_links_from_home w = Inr links \<and>
         collected_data (main w)
           = take MAX_ARTICLES (List.map_filter (candidate_record w) links) \<and>
         length (collected_data (main w))
           = min MAX_ARTICLES (length (filter (\<lambda>l. candidate_record w l \<noteq> None) links)))"
  proof
    assume n: "raised (main w) = None"
    show "\<exists>links. collect_article_links_from_home w = Inr links \<and>
         collected_data (main w)
           = take MAX_ARTICLES (List.map_filter (candidate_record w) links) \<and>
         length (collected_data (main w))
           = min MAX_ARTICLES (length (filter (\<lambda>l. candidate_record w l \<noteq> None) links))"
    proof (cases "collect_article_links_from_home w")
      case (Inl e)
      with n show ?thesis by (simp add: main_def initial_run_def)
    next
      case (Inr links)
      with n have "raised (main_loop w links initial_run) = None" by (simp add: main_def)
      from main_loop_collected [OF this] Inr
      have c: "collected_data (main w)
          = take MAX_ARTICLES (List.map_filter (candidate_record w) links)"
        by (simp add: main_def initial_run_def)
      then have "length (collected_data (main w))
          = min MAX_ARTICLES (length (filter (\<lambda>l. candidate_record w l \<noteq> None) links))"
        by (simp add: length_map_filter min.commute del: not_None_eq)
      with c Inr show ?thesis by simp
    qed
  qed
  show "\<forall>e. raised (main w) = Some e \<longrightarrow>
      collect_article_links_from_home w = Inl e \<or>
      (\<exists>links l. collect_article_links_from_home w = Inr links \<and> l \<in> set links \<and>
         (urlparse w l = Inl e \<or> (in_domain w l \<and> extract_article_metadata w l = Inl e)))"
  proof (intro allI impI)
    fix e assume r: "raised (main w) = Some e"
    show "collect_article_links_from_home w = Inl e \<or>
      (\<exists>links l. collect_article_links_from_home w = Inr links \<and> l \<in> set links \<and>
         (urlparse w l = Inl e \<or> (in_domain w l \<and> extract_article_metadata w l = Inl e)))"
    proof (cases "collect_article_links_from_home w")
      case (Inl e')
      with r show ?thesis by (simp add: main_def initial_run_def)
    next
      case (Inr links)
      with r have "raised (main_loop w links initial_run) = Some e" by (simp add: main_def)
      from main_loop_raised [OF this] Inr show ?thesis
        by (auto simp: initial_run_def)
    qed
  qed
  show "\<forall>links. collect_article_links_from_home w = Inr links \<and>
       (\<forall>l \<in> set links.
          (\<exists>p. urlparse w l = Inr p) \<and> (\<forall>e. extract_article_metadata w l \<noteq> Inl e))
      \<longrightarrow> raised (main w) = None"
  proof (intro allI impI, elim conjE)
    fix links
    assume c: "collect_article_links_from_home w = Inr links"
      and a: "\<forall>l \<in> set links.
          (\<exists>p. urlparse w l = Inr p) \<and> (\<forall>e. extract_article_metadata w l \<noteq> Inl e)"
    have "raised (main_loop w links initial_run) = raised initial_run"
      by (rule main_loop_not_raised) (use a in blast)
    with c show "raised (main w) = None" by (simp add: main_def initial_run_def)
  qed
qed

text \<open>The home page of 51 links where only the first article page fails: no exception
  ends the run and 50 records are collected.\<close>

theorem driver_bound_witness:
  "raised (main flaky_world) = None \<and> length (collected_data (main flaky_world)) = 50"
proof -
  have a: "\<forall>l \<in> set many_links.
      (\<exists>p. urlparse flaky_world l = Inr p)
      \<and> (\<forall>e. extract_article_metadata flaky_world l \<noteq> Inl e)"
    using flaky_no_raise by blast
  from driver_bound [of flaky_world]
  have "\<forall>links. collect_article_links_from_home flaky_world = Inr links \<and>
       (\<forall>l \<in> set links.
          (\<exists>p. urlparse flaky_world l = Inr p)
          \<and> (\<forall>e. extract_article_metadata flaky_world l \<noteq> Inl e))
      \<longrightarrow> raised (main flaky_world) = None"
    by (elim conjE)
  with collect_flaky a have n: "raised (main flaky_world) = None" by blast
  from driver_bound [of flaky_world]
  have "raised (main flaky_world) = None \<longrightarrow>
      (\<exists>links. collect_article_links_from_home flaky_world = Inr links \<and>
         collected_data (main flaky_world)
           = take MAX_ARTICLES (List.map_filter (candidate_record flaky_world) links) \<and>
         length (collected_data (main flaky_world))
           = min MAX_ARTICLES
               (length (filter (\<lambda>l. candidate_record flaky_world l \<noteq> None) links)))"
    by (elim conjE)
  with n collect_flaky
  have "length (collected_data (main flaky_world))
      = min MAX_ARTICLES
          (length (filter (\<lambda>l. candidate_record flaky_world l \<noteq> None) many_links))"
    by auto
  then have "length (collected_data (main flaky_world)) = 50"
    by (simp only: good_flaky flaky_counts MAX_ARTICLES_def)
  with n show ?thesis by simp
qed

text \<open>
  The home page of 51 links, one more than \<open>MAX_ARTICLES\<close>. When no article page can be
  fetched, the driver calls the extractor on all 51 candidates and collects no record.
  When every article page is rejected by the parser, the exception of the first call of
  the extractor ends the run.
\<close>

theorem exactly_max_processed_counterexample:
  "MAX_ARTICLES = 50 \<and>
   collect_article_links_from_home dead_world = Inr many_links \<and>
   length many_links = 51 \<and>
   length (processed (main dead_world)) = 51 \<and>
   collected_data (main dead_world) = [] \<and>
   raised (main dead_world) = None \<and>
   collect_article_links_from_home crash_world = Inr many_links \<and>
   processed (main crash_world) = [many_url 0] \<and>
   collected_data (main crash_world) = [] \<and>
   raised (main crash_world) = Some ParserRejectedMarkup"
  by (simp add: MAX_ARTICLES_def collect_dead processed_dead collected_dead raised_dead
      many_length collect_crash main_crash)

section \<open>The counter counts records\<close>

text \<open>
  C10. The counter of \<open>main\<close> is the number of records collected, and the records are
  those the extractor returned for the links processed, so a link whose fetch fails does
  not use up the budget of \<open>MAX_ARTICLES = 50\<close>. On the home page of 51 links where
  only the first article page fails, the driver calls the extractor 51 times and
  collects 50 records, and no exception ends the run.
\<close>

theorem counter_counts_records_only:
  "count (main w) = length (collected_data (main w)) \<and>
   collected_data (main w) = List.map_filter (record_of w) (processed (main w)) \<and>
   length (collected_data (main w)) \<le> MAX_ARTICLES \<and>
   MAX_ARTICLES = 50 \<and>
   length (processed (main flaky_world)) = 51 \<and>
   length (collected_data (main flaky_world)) = 50 \<and>
   raised (main flaky_world) = None"
proof -
  from main_trace [of w] main_count_le [of w]
  have "count (main w) = length (collected_data (main w))"
    and "collected_data (main w) = List.map_filter (record_of w) (processed (main w))"
    and "length (collected_data (main w)) \<le> MAX_ARTICLES"
    by simp_all
  then show ?thesis
    by (simp add: MAX_ARTICLES_def processed_flaky collected_flaky many_length raised_flaky)
qed

theorem counter_counts_records_only_witness:
  "count (main dead_world) = 0 \<and>
   List.map_filter (record_of dead_world) (processed (main dead_world)) = []"
  using counter_counts_records_only [of dead_world] by (simp add: collected_dead)

end
